theory Spec2Isabelle
  imports Complex_Main "HOL-Library.AList"
begin

section \<open>Agents (immune\_system/agents.py)\<close>

datatype AgentStatus = HEALTHY | INFECTED | QUARANTINED

text \<open>
  The fields of \<open>BaseAgent\<close> that the orchestrator reads or writes. The simulation
  fields (base latency, token and tool-call figures, execution count) are used by
  \<open>execute\<close> only and are left out.
\<close>

record BaseAgent =
  agent_id :: string
  status :: AgentStatus
  infected :: bool
  infection_type :: "string option"

definition infect :: "string \<Rightarrow> BaseAgent \<Rightarrow> BaseAgent" where
  "infect ty a = a\<lparr>infected := True, infection_type := Some ty, status := INFECTED\<rparr>"

definition cure :: "BaseAgent \<Rightarrow> BaseAgent" where
  "cure a = a\<lparr>infected := False, infection_type := None, status := HEALTHY\<rparr>"

definition quarantine_agent :: "BaseAgent \<Rightarrow> BaseAgent" where
  "quarantine_agent a = a\<lparr>status := QUARANTINED\<rparr>"

definition release_agent :: "BaseAgent \<Rightarrow> BaseAgent" where
  "release_agent a = a\<lparr>status := (if \<not> infected a then HEALTHY else INFECTED)\<rparr>"

section \<open>Values exchanged with the collaborators\<close>

text \<open>
  The modules detection, diagnosis, healing, memory and quarantine are imported by
  orchestrator.py but are not among the sources. Their value types are modelled by the
  attributes that orchestrator.py reads. Enumeration members (anomaly kinds, diagnosis
  types, healing actions) are represented by their \<open>.value\<close> strings. Floats
  (severity, confidence, timestamps) are represented by the rational numbers they
  denote; NaN and the infinities are left out.
\<close>

record InfectionReport =
  severity :: rat
  anomalies :: "string list"

record Diagnosis =
  diagnosis_type :: string
  confidence :: rat
  reasoning :: string

record HealingResult =
  validation_passed :: bool
  message :: string

record HealingRecord =
  hr_agent_id :: string
  hr_diagnosis_type :: string
  hr_healing_action :: string
  hr_success :: bool

datatype pyval = PyFloat rat | PyStr string | PyBool bool

record ActionLogEntry =
  le_type :: string
  le_agent_id :: string
  le_timestamp :: rat
  le_kwargs :: "(string \<times> pyval) list"

record PendingApproval =
  infection :: InfectionReport
  diagnosis :: Diagnosis
  requested_at :: rat

record RejectedApproval =
  rej_infection :: InfectionReport
  rej_diagnosis :: Diagnosis
  rejected_at :: rat

datatype log_level = INFO | WARNING | ERROR

text \<open>
  A coroutine \<open>heal_agent(agent_id, infection, trigger)\<close> on the event loop. Its control
  point is one of the places where the coroutine is suspended, together with the local
  variables that are live there: \<open>Created\<close> after \<open>asyncio.create_task\<close> and before the
  first statement runs, \<open>Sleep_diagnosed\<close> at the sleep of line 301, \<open>Sleep_planned\<close> at
  the sleep of line 315 (holding \<open>failed_actions\<close>), \<open>Await_apply\<close> at the await of
  line 328 (holding \<open>next_action\<close>), \<open>Sleep_escalate\<close> at the sleep of line 355, after
  which the coroutine calls itself.
\<close>

datatype heal_pc =
    Created
  | Sleep_diagnosed Diagnosis
  | Sleep_planned Diagnosis "string set"
  | Await_apply Diagnosis string
  | Sleep_escalate

record heal_task =
  t_agent_id :: string
  t_infection :: InfectionReport
  t_trigger :: string
  t_pc :: heal_pc

section \<open>The environment of the orchestrator\<close>

text \<open>
  What the orchestrator obtains from outside itself: the wall clock (\<open>clock n\<close> is the
  value of the n-th call of \<open>time.time()\<close>), the telemetry store, the baseline learner,
  the sentinel, the diagnostician, the healer's policy table and the effect of
  \<open>Healer.apply_healing\<close> on an agent. The types of telemetry samples and baselines are
  left open.
\<close>

record ('v, 'b) env =
  clock :: "nat \<Rightarrow> rat"
  has_baseline :: "string \<Rightarrow> bool"
  get_baseline :: "string \<Rightarrow> 'b"
  get_recent :: "string \<Rightarrow> 'v list"
  detect_infection :: "'v list \<Rightarrow> 'b \<Rightarrow> InfectionReport option"
  diagnose :: "InfectionReport \<Rightarrow> 'b \<Rightarrow> Diagnosis"
  get_healing_policy :: "string \<Rightarrow> string list"
  apply_healing :: "BaseAgent \<Rightarrow> string \<Rightarrow> BaseAgent \<times> HealingResult"

section \<open>The orchestrator state (orchestrator.py, \<open>__init__\<close>)\<close>

text \<open>
  Dictionaries are association lists with distinct keys in insertion order
  (\<open>AList.update\<close> overwrites in place or appends, as a Python dict does).
  \<open>quarantined\<close> and \<open>total_quarantines\<close> are the state of the QuarantineController,
  \<open>memory_records\<close> that of the ImmuneMemory. \<open>logger_out\<close> collects the calls of the
  module logger as level, format string and agent id. \<open>clock_reads\<close> counts the calls of
  \<open>time.time()\<close> made so far. \<open>loop_tasks\<close> are the \<open>heal_agent\<close> coroutines that were
  handed to the event loop and have not finished.
\<close>

record orch =
  agents :: "(string \<times> BaseAgent) list"
  quarantined :: "string set"
  total_quarantines :: nat
  memory_records :: "HealingRecord list"
  total_infections :: nat
  total_healed :: nat
  total_failed_healings :: nat
  pending_approvals :: "(string \<times> PendingApproval) list"
  rejected_approvals :: "(string \<times> RejectedApproval) list"
  healing_in_progress :: "string set"
  healing_action_log :: "ActionLogEntry list"
  action_log_max :: nat
  logger_out :: "(log_level \<times> string \<times> string) list"
  clock_reads :: nat
  loop_tasks :: "heal_task list"

definition SEVERITY_REQUIRING_APPROVAL :: rat where
  "SEVERITY_REQUIRING_APPROVAL = 7"

text \<open>
  The dict comprehension of \<open>__init__\<close>: a later agent with the same id replaces the
  earlier one and keeps its position.
\<close>

definition agents_dict :: "BaseAgent list \<Rightarrow> (string \<times> BaseAgent) list" where
  "agents_dict as = foldl (\<lambda>d a. AList.update (agent_id a) a d) [] as"

definition init_orch :: "BaseAgent list \<Rightarrow> orch" where
  "init_orch as =
     \<lparr>agents = agents_dict as,
      quarantined = {},
      total_quarantines = 0,
      memory_records = [],
      total_infections = 0,
      total_healed = 0,
      total_failed_healings = 0,
      pending_approvals = [],
      rejected_approvals = [],
      healing_in_progress = {},
      healing_action_log = [],
      action_log_max = 80,
      logger_out = [],
      clock_reads = 0,
      loop_tasks = []\<rparr>"

section \<open>Small helpers\<close>

text \<open>A call \<open>logger.info/warning/error(fmt, agent_id, ...)\<close>.\<close>

definition logger :: "log_level \<Rightarrow> string \<Rightarrow> string \<Rightarrow> orch \<Rightarrow> orch" where
  "logger lvl fmt aid st = st\<lparr>logger_out := logger_out st @ [(lvl, fmt, aid)]\<rparr>"

text \<open>A call of \<open>time.time()\<close>: the next reading of the clock.\<close>

definition time_time :: "('v, 'b) env \<Rightarrow> orch \<Rightarrow> rat \<times> orch" where
  "time_time env st = (clock env (clock_reads st), st\<lparr>clock_reads := Suc (clock_reads st)\<rparr>)"

text \<open>The slice \<open>xs[-n:]\<close> for \<open>n \<ge> 0\<close>; \<open>xs[-0:]\<close> is the whole list.\<close>

definition py_slice_last :: "nat \<Rightarrow> 'a list \<Rightarrow> 'a list" where
  "py_slice_last n xs = (if n = 0 then xs else drop (length xs - n) xs)"

text \<open>\<open>d.pop(k, None)\<close>: the value under the key, if any, and the dict without the key.\<close>

definition dict_pop :: "string \<Rightarrow> (string \<times> 'a) list \<Rightarrow> 'a option \<times> (string \<times> 'a) list" where
  "dict_pop k d = (map_of d k, AList.delete k d)"

text \<open>A method call on the agent object stored under an id.\<close>

definition update_agent :: "string \<Rightarrow> (BaseAgent \<Rightarrow> BaseAgent) \<Rightarrow> orch \<Rightarrow> orch" where
  "update_agent aid f st =
     st\<lparr>agents := map (\<lambda>(k, a). if k = aid then (k, f a) else (k, a)) (agents st)\<rparr>"

text \<open>
  \<open>round(x, 1)\<close> on the exact value: to one decimal, ties to the even digit. (Python
  returns the double nearest to this decimal.)
\<close>

definition round1 :: "rat \<Rightarrow> rat" where
  "round1 x =
     (let y = x * 10; f = \<lfloor>y\<rfloor>; r = y - of_int f
      in of_int (if r < 1 / 2 then f else if 1 / 2 < r then f + 1
                 else if even f then f else f + 1) / 10)"

section \<open>The action log (orchestrator.py, lines 78-89)\<close>

definition log_action ::
  "('v, 'b) env \<Rightarrow> string \<Rightarrow> string \<Rightarrow> (string \<times> pyval) list \<Rightarrow> orch \<Rightarrow> orch" where
  "log_action env action_type aid kwargs st =
     (let (now, st1) = time_time env st;
          entry = \<lparr>le_type = action_type, le_agent_id = aid, le_timestamp = now,
                   le_kwargs = kwargs\<rparr>;
          lg = healing_action_log st1 @ [entry]
      in st1\<lparr>healing_action_log :=
               (if length lg > action_log_max st1 then py_slice_last (action_log_max st1) lg
                else lg)\<rparr>)"

definition get_healing_actions :: "orch \<Rightarrow> ActionLogEntry list" where
  "get_healing_actions st = py_slice_last 50 (healing_action_log st)"

text \<open>A sequence of calls of \<open>_log_action\<close>, each with its type, agent id and keywords.\<close>

fun log_actions ::
  "('v, 'b) env \<Rightarrow> (string \<times> string \<times> (string \<times> pyval) list) list \<Rightarrow> orch \<Rightarrow> orch" where
  "log_actions env [] st = st"
| "log_actions env ((ty, aid, kw) # rs) st = log_actions env rs (log_action env ty aid kw st)"

text \<open>
  The entries that a sequence of calls builds, in the order of the calls, when the first
  call makes the n-th reading of the clock.
\<close>

fun built_entries ::
  "('v, 'b) env \<Rightarrow> nat \<Rightarrow> (string \<times> string \<times> (string \<times> pyval) list) list \<Rightarrow> ActionLogEntry list" where
  "built_entries env n [] = []"
| "built_entries env n ((ty, aid, kw) # rs) =
     \<lparr>le_type = ty, le_agent_id = aid, le_timestamp = clock env n, le_kwargs = kw\<rparr>
       # built_entries env (Suc n) rs"

section \<open>Collaborators whose code is not among the sources\<close>

text \<open>
  Modelled from the spec: QuarantineController.quarantine (quarantine.py). Section 6 of
  the specification: a simple membership set with a monotonic counter of quarantine
  events.
\<close>

definition quarantine_add :: "string \<Rightarrow> orch \<Rightarrow> orch" where
  "quarantine_add aid st =
     st\<lparr>quarantined := insert aid (quarantined st),
        total_quarantines := total_quarantines st + 1\<rparr>"

text \<open>
  Modelled from the spec: QuarantineController.release (quarantine.py). Section 6: the
  id leaves the membership set.
\<close>

definition quarantine_release :: "string \<Rightarrow> orch \<Rightarrow> orch" where
  "quarantine_release aid st = st\<lparr>quarantined := quarantined st - {aid}\<rparr>"

text \<open>
  Modelled from the spec: QuarantineController.is\_quarantined (quarantine.py).
  Section 6: membership in the set.
\<close>

definition is_quarantined :: "orch \<Rightarrow> string \<Rightarrow> bool" where
  "is_quarantined st aid = (aid \<in> quarantined st)"

text \<open>
  Modelled from the spec: ImmuneMemory.record\_healing (memory.py). Section 6: an
  append-only store without eviction; \<open>record\<close> adds one outcome for an agent id, a
  fault category and an action.
\<close>

definition record_healing :: "string \<Rightarrow> string \<Rightarrow> string \<Rightarrow> bool \<Rightarrow> orch \<Rightarrow> orch" where
  "record_healing aid dtype action success st =
     st\<lparr>memory_records := memory_records st @
          [\<lparr>hr_agent_id = aid, hr_diagnosis_type = dtype, hr_healing_action = action,
            hr_success = success\<rparr>]\<rparr>"

text \<open>
  Modelled from the spec: ImmuneMemory.get\_failed\_actions (memory.py). Sections 4.4
  and 6: the set of actions recorded as failed for the pair of agent id and fault
  category.
\<close>

definition get_failed_actions :: "HealingRecord list \<Rightarrow> string \<Rightarrow> string \<Rightarrow> string set" where
  "get_failed_actions recs aid dtype =
     set (map hr_healing_action
       (filter (\<lambda>r. hr_agent_id r = aid \<and> hr_diagnosis_type r = dtype \<and> \<not> hr_success r) recs))"

text \<open>
  Modelled from the spec: Healer.get\_next\_action (healing.py). Section 4.4, step 4:
  the first action of the policy of the fault category that is not in the known-failed
  set, or none when no such action remains. The policy table itself is a parameter.
\<close>

definition get_next_action ::
  "('v, 'b) env \<Rightarrow> string \<Rightarrow> string set \<Rightarrow> string option" where
  "get_next_action env dtype failed_actions =
     List.find (\<lambda>a. a \<notin> failed_actions) (get_healing_policy env dtype)"

section \<open>The anomaly sweep (orchestrator.py, lines 125-178)\<close>

text \<open>\<open>asyncio.create_task(self.heal_agent(agent_id, infection, trigger))\<close>.\<close>

definition create_task :: "string \<Rightarrow> InfectionReport \<Rightarrow> string \<Rightarrow> orch \<Rightarrow> orch" where
  "create_task aid infn trigger st =
     st\<lparr>loop_tasks := loop_tasks st @
          [\<lparr>t_agent_id = aid, t_infection = infn, t_trigger = trigger, t_pc = Created\<rparr>]\<rparr>"

text \<open>
  The body of the \<open>for\<close> loop for one agent id. Every \<open>continue\<close> leaves the state as
  it is. The body contains no await.
\<close>

definition sweep_agent :: "('v, 'b) env \<Rightarrow> string \<Rightarrow> orch \<Rightarrow> orch" where
  "sweep_agent env aid st =
     (if is_quarantined st aid then st
      else if \<not> has_baseline env aid then st
      else
        let recent = get_recent env aid in
        if recent = [] then st
        else
          let baseline = get_baseline env aid in
          case detect_infection env recent baseline of
            None \<Rightarrow> st
          | Some infn \<Rightarrow>
              if aid \<in> set (map fst (rejected_approvals st)) then st
              else
                let st1 = st\<lparr>total_infections := total_infections st + 1\<rparr>;
                    st2 = logger WARNING ''INFECTION DETECTED: %s | severity=%.1f/10 | anomalies=[%s]'' aid st1;
                    st3 = quarantine_add aid st2;
                    st4 = update_agent aid quarantine_agent st3;
                    st5 = logger WARNING ''Agent %s QUARANTINED'' aid st4
                in
                  if severity infn \<ge> SEVERITY_REQUIRING_APPROVAL then
                    let dg = diagnose env infn baseline;
                        (now, st6) = time_time env st5;
                        st7 = st6\<lparr>pending_approvals :=
                                AList.update aid
                                  \<lparr>infection = infn, diagnosis = dg, requested_at = now\<rparr>
                                  (pending_approvals st6)\<rparr>;
                        st8 = log_action env ''approval_requested'' aid
                                [(''severity'', PyFloat (round1 (severity infn)))] st7
                    in logger INFO ''Agent %s requires approval (severity %.1f) - use dashboard to Approve/Reject'' aid st8
                  else create_task aid infn ''auto'' st5)"

text \<open>One pass of the \<open>for\<close> loop over \<open>self.agents\<close>.\<close>

definition sentinel_sweep :: "('v, 'b) env \<Rightarrow> orch \<Rightarrow> orch" where
  "sentinel_sweep env st = fold (sweep_agent env) (map fst (agents st)) st"

section \<open>The approval workflow (orchestrator.py, lines 200-284)\<close>

definition approve_healing ::
  "('v, 'b) env \<Rightarrow> string \<Rightarrow> bool \<Rightarrow> orch \<Rightarrow> (InfectionReport option \<times> bool) \<times> orch" where
  "approve_healing env aid approved st =
     (let (entry, pend) = dict_pop aid (pending_approvals st);
          st1 = st\<lparr>pending_approvals := pend\<rparr>
      in case entry of
           None \<Rightarrow> ((None, False), st1)
         | Some e \<Rightarrow>
             if approved then ((Some (infection e), True), log_action env ''user_approved'' aid [] st1)
             else
               let st2 = log_action env ''user_rejected'' aid [] st1;
                   (now, st3) = time_time env st2;
                   st4 = st3\<lparr>rejected_approvals :=
                           AList.update aid
                             \<lparr>rej_infection = infection e, rej_diagnosis = diagnosis e,
                              rejected_at = now\<rparr>
                             (rejected_approvals st3)\<rparr>
               in ((None, False),
                   logger WARNING ''Healing rejected for %s - quarantined until Heal now in the dashboard'' aid st4))"

text \<open>
  The loop of \<open>approve_all_pending\<close> over the snapshot of the keys, with the list
  \<open>approved_list\<close> as accumulator.
\<close>

fun approve_loop ::
  "('v, 'b) env \<Rightarrow> bool \<Rightarrow> string list \<Rightarrow> (string \<times> InfectionReport) list \<Rightarrow> orch \<Rightarrow>
     (string \<times> InfectionReport) list \<times> orch" where
  "approve_loop env approved [] approved_list st = (approved_list, st)"
| "approve_loop env approved (aid # ids) approved_list st =
     (case approve_healing env aid approved st of
        ((infn, did_approve), st1) \<Rightarrow>
          approve_loop env approved ids
            (case infn of
               Some i \<Rightarrow> if did_approve then approved_list @ [(aid, i)] else approved_list
             | None \<Rightarrow> approved_list)
            st1)"

definition approve_all_pending ::
  "('v, 'b) env \<Rightarrow> bool \<Rightarrow> orch \<Rightarrow> (string \<times> InfectionReport) list \<times> orch" where
  "approve_all_pending env approved st =
     approve_loop env approved (map fst (pending_approvals st)) [] st"

definition start_healing_explicitly ::
  "('v, 'b) env \<Rightarrow> string \<Rightarrow> orch \<Rightarrow> InfectionReport option \<times> orch" where
  "start_healing_explicitly env aid st =
     (let (entry, rej) = dict_pop aid (rejected_approvals st);
          st1 = st\<lparr>rejected_approvals := rej\<rparr>
      in case entry of
           None \<Rightarrow> (None, st1)
         | Some e \<Rightarrow>
             let st2 = log_action env ''explicit_heal_requested'' aid [] st1
             in (Some (rej_infection e), logger INFO ''Agent %s - healing started (Heal now)'' aid st2))"

section \<open>The healing escalation (orchestrator.py, lines 286-359)\<close>

text \<open>
  \<open>heal_agent\<close> is cut at its awaits. Each piece runs without interruption on the
  event loop. \<open>self.agents\<close> never gains or loses a key, so the object bound to
  \<open>agent\<close> in line 290 is the one stored under the id later on as well.
\<close>

datatype heal_exit = Healed | Exhausted | KeyError

text \<open>Lines 288-299: up to the first sleep. \<open>None\<close> is the KeyError of line 290.\<close>

definition heal_diagnose ::
  "('v, 'b) env \<Rightarrow> string \<Rightarrow> InfectionReport \<Rightarrow> orch \<Rightarrow> Diagnosis option \<times> orch" where
  "heal_diagnose env aid infn st =
     (let st0 = st\<lparr>healing_in_progress := insert aid (healing_in_progress st)\<rparr>
      in case map_of (agents st0) aid of
           None \<Rightarrow> (None, st0)
         | Some agent \<Rightarrow>
             let baseline = get_baseline env aid;
                 dg = diagnose env infn baseline
             in (Some dg, logger INFO ''Diagnosis for %s: %s (confidence: %.0f%%) - %s'' aid st0))"

text \<open>Lines 304-313: the policy and the known failures, up to the second sleep.\<close>

definition heal_plan ::
  "('v, 'b) env \<Rightarrow> string \<Rightarrow> Diagnosis \<Rightarrow> orch \<Rightarrow> string set \<times> orch" where
  "heal_plan env aid dg st =
     (let st1 = logger INFO ''Healing policy for %s: [%s]'' aid st;
          failed_actions = get_failed_actions (memory_records st1) aid (diagnosis_type dg)
      in (failed_actions,
          if failed_actions \<noteq> {}
          then logger INFO ''Immune memory for %s: skipping previously failed actions: %s'' aid st1
          else st1))"

text \<open>Lines 318-326: the choice of the action. \<open>None\<close> is the exhaustion branch.\<close>

definition heal_select ::
  "('v, 'b) env \<Rightarrow> string \<Rightarrow> Diagnosis \<Rightarrow> string set \<Rightarrow> orch \<Rightarrow> string option \<times> orch" where
  "heal_select env aid dg failed_actions st =
     (case get_next_action env (diagnosis_type dg) failed_actions of
        None \<Rightarrow>
          (None,
           update_agent aid release_agent
             (quarantine_release aid
               (logger ERROR ''All healing actions exhausted for %s'' aid st)))
      | Some next_action \<Rightarrow>
          (Some next_action, logger INFO ''Attempting healing on %s: %s'' aid st))"

text \<open>
  Lines 328-355: the remediation and its bookkeeping. The result \<open>None\<close> means that
  the coroutine goes on to call itself (line 357). The first branch only makes the
  function total.
\<close>

definition heal_apply ::
  "('v, 'b) env \<Rightarrow> string \<Rightarrow> Diagnosis \<Rightarrow> string \<Rightarrow> string \<Rightarrow> orch \<Rightarrow> heal_exit option \<times> orch" where
  "heal_apply env aid dg next_action trigger st =
     (case map_of (agents st) aid of
        None \<Rightarrow> (Some KeyError, st)
      | Some agent \<Rightarrow>
          (case apply_healing env agent next_action of
             (agent', result) \<Rightarrow>
               let st1 = update_agent aid (\<lambda>_. agent') st;
                   st2 = record_healing aid (diagnosis_type dg) next_action
                           (validation_passed result) st1;
                   st3 = log_action env ''healing_attempt'' aid
                           [(''diagnosis_type'', PyStr (diagnosis_type dg)),
                            (''action'', PyStr next_action),
                            (''success'', PyBool (validation_passed result)),
                            (''trigger'', PyStr trigger)] st2
               in
                 if validation_passed result then
                   let st4 = logger INFO ''HEALING SUCCESS for %s: %s - released from quarantine'' aid st3;
                       st5 = quarantine_release aid st4;
                       st6 = update_agent aid release_agent st5
                   in (Some Healed, st6\<lparr>total_healed := total_healed st6 + 1\<rparr>)
                 else
                   let st4 = logger WARNING ''HEALING FAILED for %s: %s'' aid st3;
                       st5 = st4\<lparr>total_failed_healings := total_failed_healings st4 + 1\<rparr>
                   in (None, logger INFO ''Escalating to next healing action for %s'' aid st5)))"

text \<open>The \<open>finally\<close> clause of line 359.\<close>

definition heal_finally :: "string \<Rightarrow> orch \<Rightarrow> orch" where
  "heal_finally aid st = st\<lparr>healing_in_progress := healing_in_progress st - {aid}\<rparr>"

text \<open>The body of one invocation of \<open>heal_agent\<close>, from line 288 to line 355.\<close>

definition heal_body ::
  "('v, 'b) env \<Rightarrow> string \<Rightarrow> InfectionReport \<Rightarrow> string \<Rightarrow> orch \<Rightarrow> heal_exit option \<times> orch" where
  "heal_body env aid infn trigger st =
     (case heal_diagnose env aid infn st of
        (None, st1) \<Rightarrow> (Some KeyError, st1)
      | (Some dg, st1) \<Rightarrow>
          (case heal_plan env aid dg st1 of
             (failed_actions, st2) \<Rightarrow>
               (case heal_select env aid dg failed_actions st2 of
                  (None, st3) \<Rightarrow> (Some Exhausted, st3)
                | (Some next_action, st3) \<Rightarrow> heal_apply env aid dg next_action trigger st3)))"

text \<open>
  The actions of the policy of an episode that are not yet recorded as failed for the
  agent: the recursion of \<open>heal_agent\<close> makes their number smaller.
\<close>

definition untried :: "('v, 'b) env \<Rightarrow> string \<Rightarrow> InfectionReport \<Rightarrow> orch \<Rightarrow> string set" where
  "untried env aid infn st =
     (let dt = diagnosis_type (diagnose env infn (get_baseline env aid))
      in set (get_healing_policy env dt) - get_failed_actions (memory_records st) aid dt)"

text \<open>
  \<open>heal_agent\<close> run from its entry to its return, with nothing else scheduled in
  between. The recursive call of line 357 is the recursion of the function; every
  invocation runs its \<open>finally\<close> clause when it returns.
\<close>

function heal_agent ::
  "('v, 'b) env \<Rightarrow> string \<Rightarrow> InfectionReport \<Rightarrow> string \<Rightarrow> orch \<Rightarrow> heal_exit \<times> orch" where
  "heal_agent env aid infn trigger st =
     (case heal_body env aid infn trigger st of
        (Some e, st1) \<Rightarrow> (e, heal_finally aid st1)
      | (None, st1) \<Rightarrow>
          (case heal_agent env aid infn trigger st1 of
             (e, st2) \<Rightarrow> (e, heal_finally aid st2)))"
  by pat_completeness auto
termination
proof (relation "measure (\<lambda>(env, aid, infn, trigger, st). card (untried env aid infn st))",
       goal_cases)
  case 1
  show ?case by simp
next
  case (2 env aid infn trigger st x1 x2)
  define dt where "dt = diagnosis_type (diagnose env infn (get_baseline env aid))"
  have m1: "\<And>l f a s. memory_records (logger l f a s) = memory_records s"
    by (simp add: logger_def)
  have m2: "\<And>ty a kw s. memory_records (log_action env ty a kw s) = memory_records s"
    by (simp add: log_action_def time_time_def Let_def)
  have m3: "\<And>a f s. memory_records (update_agent a f s) = memory_records s"
    by (simp add: update_agent_def)
  from 2 have hb: "heal_body env aid infn trigger st = (None, x2)" by simp
  then have "\<exists>a. a \<in> untried env aid infn st \<and>
      memory_records x2 = memory_records st @
        [\<lparr>hr_agent_id = aid, hr_diagnosis_type = dt, hr_healing_action = a,
          hr_success = False\<rparr>]"
    unfolding dt_def heal_body_def heal_diagnose_def heal_plan_def heal_select_def
      heal_apply_def untried_def get_next_action_def record_healing_def
    by (auto simp: m1 m2 m3 Let_def find_Some_iff
        split: option.splits prod.splits if_splits)
  then obtain a where
    mem: "a \<in> untried env aid infn st" and
    recs: "memory_records x2 = memory_records st @
             [\<lparr>hr_agent_id = aid, hr_diagnosis_type = dt, hr_healing_action = a,
               hr_success = False\<rparr>]"
    by blast
  have "get_failed_actions (memory_records x2) aid dt =
          insert a (get_failed_actions (memory_records st) aid dt)"
    by (simp add: recs get_failed_actions_def)
  then have "untried env aid infn x2 = untried env aid infn st - {a}"
    by (auto simp: untried_def Let_def dt_def)
  moreover have "finite (untried env aid infn st)"
    by (simp add: untried_def Let_def)
  ultimately have "card (untried env aid infn x2) < card (untried env aid infn st)"
    using mem card_Diff1_less [of "untried env aid infn st" a] by simp
  then show ?case by simp
qed

section \<open>The coroutines on the event loop\<close>

text \<open>
  One scheduling of a \<open>heal_agent\<close> coroutine: it runs from the place where it is
  suspended to its next await, or to its end (result \<open>None\<close>). When the innermost
  invocation returns or raises, every enclosing invocation runs its \<open>finally\<close>
  clause without a further await; all of them discard the same agent id.
\<close>

definition heal_entry ::
  "('v, 'b) env \<Rightarrow> heal_task \<Rightarrow> orch \<Rightarrow> heal_task option \<times> orch" where
  "heal_entry env t st =
     (case heal_diagnose env (t_agent_id t) (t_infection t) st of
        (None, st1) \<Rightarrow> (None, heal_finally (t_agent_id t) st1)
      | (Some dg, st1) \<Rightarrow> (Some (t\<lparr>t_pc := Sleep_diagnosed dg\<rparr>), st1))"

definition run_task ::
  "('v, 'b) env \<Rightarrow> heal_task \<Rightarrow> orch \<Rightarrow> heal_task option \<times> orch" where
  "run_task env t st =
     (case t_pc t of
        Created \<Rightarrow> heal_entry env t st
      | Sleep_escalate \<Rightarrow> heal_entry env t st
      | Sleep_diagnosed dg \<Rightarrow>
          (case heal_plan env (t_agent_id t) dg st of
             (failed_actions, st1) \<Rightarrow> (Some (t\<lparr>t_pc := Sleep_planned dg failed_actions\<rparr>), st1))
      | Sleep_planned dg failed_actions \<Rightarrow>
          (case heal_select env (t_agent_id t) dg failed_actions st of
             (None, st1) \<Rightarrow> (None, heal_finally (t_agent_id t) st1)
           | (Some next_action, st1) \<Rightarrow> (Some (t\<lparr>t_pc := Await_apply dg next_action\<rparr>), st1))
      | Await_apply dg next_action \<Rightarrow>
          (case heal_apply env (t_agent_id t) dg next_action (t_trigger t) st of
             (Some e, st1) \<Rightarrow> (None, heal_finally (t_agent_id t) st1)
           | (None, st1) \<Rightarrow> (Some (t\<lparr>t_pc := Sleep_escalate\<rparr>), st1)))"

text \<open>
  The callers of the approval workflow. The docstrings of \<open>approve_healing\<close> and
  \<open>start_healing_explicitly\<close> ask the caller to schedule \<open>heal_agent\<close> for the
  infection that is returned; \<open>run\<close> does so in lines 454-459.
\<close>

definition approve_and_schedule ::
  "('v, 'b) env \<Rightarrow> string \<Rightarrow> bool \<Rightarrow> string \<Rightarrow> orch \<Rightarrow> orch" where
  "approve_and_schedule env aid approved trigger st =
     (case approve_healing env aid approved st of
        ((Some i, did_approve), st1) \<Rightarrow> if did_approve then create_task aid i trigger st1 else st1
      | ((None, did_approve), st1) \<Rightarrow> st1)"

definition heal_now_and_schedule ::
  "('v, 'b) env \<Rightarrow> string \<Rightarrow> string \<Rightarrow> orch \<Rightarrow> orch" where
  "heal_now_and_schedule env aid trigger st =
     (case start_healing_explicitly env aid st of
        (Some i, st1) \<Rightarrow> create_task aid i trigger st1
      | (None, st1) \<Rightarrow> st1)"

text \<open>
  The steps of the running system. Each step is one piece of code that runs without an
  await: the sweep body for one agent, one call of the approval workflow together
  with the scheduling that its caller does, one scheduling of a healing coroutine, or a
  fault injected into an agent object. A call of the approval workflow, which comes
  from the dashboard thread, is taken as one step; between its two lock regions the
  agent id is in neither approval map. The environment of every step is drawn from
  the set \<open>E\<close>; telemetry and baselines may differ from step to step.
\<close>

inductive step :: "('v, 'b) env set \<Rightarrow> orch \<Rightarrow> orch \<Rightarrow> bool" where
  step_sweep:
    "env \<in> E \<Longrightarrow> aid \<in> set (map fst (agents st)) \<Longrightarrow> step E st (sweep_agent env aid st)"
| step_approve:
    "env \<in> E \<Longrightarrow> step E st (approve_and_schedule env aid approved trigger st)"
| step_heal_now:
    "env \<in> E \<Longrightarrow> step E st (heal_now_and_schedule env aid trigger st)"
| step_task:
    "env \<in> E \<Longrightarrow> loop_tasks st = xs @ t # ys \<Longrightarrow> run_task env t st = (r, st1) \<Longrightarrow>
     step E st (st1\<lparr>loop_tasks := xs @ (case r of None \<Rightarrow> [] | Some t' \<Rightarrow> [t']) @ ys\<rparr>)"
| step_infect:
    "step E st (update_agent aid (infect ty) st)"

inductive reachable :: "('v, 'b) env set \<Rightarrow> orch \<Rightarrow> bool" where
  reachable_init: "reachable E (init_orch as)"
| reachable_step: "reachable E st \<Longrightarrow> step E st st' \<Longrightarrow> reachable E st'"

text \<open>The number of healing coroutines on the event loop for an agent id.\<close>

definition chains :: "orch \<Rightarrow> string \<Rightarrow> nat" where
  "chains st aid = length (filter (\<lambda>t. t_agent_id t = aid) (loop_tasks st))"

section \<open>Bulk approval as the specification words it\<close>

text \<open>
  Section 4.3 of the specification: approving or rejecting all pending entries is a
  sequence of single calls, one per agent id of the snapshot. \<open>approve_each\<close> makes the
  calls and keeps every result; \<open>approved_pairs\<close> selects the approved ones.
\<close>

fun approve_each ::
  "('v, 'b) env \<Rightarrow> bool \<Rightarrow> string list \<Rightarrow> orch \<Rightarrow>
     (string \<times> InfectionReport option \<times> bool) list \<times> orch" where
  "approve_each env approved [] st = ([], st)"
| "approve_each env approved (aid # ids) st =
     (case approve_healing env aid approved st of
        (r, st1) \<Rightarrow>
          (case approve_each env approved ids st1 of
             (rs, st2) \<Rightarrow> ((aid, r) # rs, st2)))"

fun approved_pairs ::
  "(string \<times> InfectionReport option \<times> bool) list \<Rightarrow> (string \<times> InfectionReport) list" where
  "approved_pairs [] = []"
| "approved_pairs ((aid, Some i, True) # rs) = (aid, i) # approved_pairs rs"
| "approved_pairs ((aid, Some i, False) # rs) = approved_pairs rs"
| "approved_pairs ((aid, None, b) # rs) = approved_pairs rs"

section \<open>Notions used in the statements\<close>

text \<open>
  The detection of line 141 for one agent, when the sweep body reaches it: the agent is
  not quarantined, has a baseline and has recent telemetry.
\<close>

definition positive_detection ::
  "('v, 'b) env \<Rightarrow> orch \<Rightarrow> string \<Rightarrow> InfectionReport option" where
  "positive_detection env st aid =
     (if is_quarantined st aid \<or> \<not> has_baseline env aid \<or> get_recent env aid = [] then None
      else detect_infection env (get_recent env aid) (get_baseline env aid))"

text \<open>
  What stands for a healing of an agent id that is still to come or under way: its
  healing coroutines, its entry in the pending-approval map and its entry in the
  rejected-approval map. \<open>started\<close> says that a coroutine of the agent has entered
  \<open>heal_agent\<close>. \<open>orch_inv\<close> is the invariant of the running system.
\<close>

definition tokens :: "orch \<Rightarrow> string \<Rightarrow> nat" where
  "tokens st aid =
     chains st aid
     + (if aid \<in> set (map fst (pending_approvals st)) then 1 else 0)
     + (if aid \<in> set (map fst (rejected_approvals st)) then 1 else 0)"

definition started :: "orch \<Rightarrow> string \<Rightarrow> bool" where
  "started st aid = (\<exists>t \<in> set (loop_tasks st). t_agent_id t = aid \<and> t_pc t \<noteq> Created)"

definition orch_inv :: "orch \<Rightarrow> bool" where
  "orch_inv st =
     ((\<forall>aid. tokens st aid \<le> 1 \<and> (0 < tokens st aid \<longrightarrow> aid \<in> quarantined st))
      \<and> (\<forall>aid. aid \<in> healing_in_progress st \<longleftrightarrow> started st aid)
      \<and> action_log_max st = 80)"

section \<open>Example configurations\<close>

text \<open>
  A pool of three agents as \<open>create_agent_pool\<close> names them, the first one with an
  injected fault, and an environment in which every agent has a baseline and recent
  telemetry, the sentinel reports an infection of the given severity, the policy of
  every fault category is the given list and every remediation has the given outcome.
  The states below are reached from the initial state by the steps that their
  definitions name.
\<close>

definition new_agent :: "string \<Rightarrow> BaseAgent" where
  "new_agent n = \<lparr>agent_id = n, status = HEALTHY, infected = False, infection_type = None\<rparr>"

definition ex_pool :: "BaseAgent list" where
  "ex_pool = [infect ''prompt_drift'' (new_agent ''VPN''), new_agent ''Docker'', new_agent ''Slack'']"

definition ex_report :: "rat \<Rightarrow> InfectionReport" where
  "ex_report sev = \<lparr>severity = sev, anomalies = [''latency_spike'']\<rparr>"

definition ex_diagnosis :: Diagnosis where
  "ex_diagnosis = \<lparr>diagnosis_type = ''prompt_drift'', confidence = 4 / 5, reasoning = ''drift''\<rparr>"

definition ex_env :: "rat \<Rightarrow> string list \<Rightarrow> bool \<Rightarrow> (nat, nat) env" where
  "ex_env sev policy outcome =
     \<lparr>clock = (\<lambda>n. of_nat n),
      has_baseline = (\<lambda>_. True),
      get_baseline = (\<lambda>_. 0),
      get_recent = (\<lambda>_. [0]),
      detect_infection = (\<lambda>_ _. Some (ex_report sev)),
      diagnose = (\<lambda>_ _. ex_diagnosis),
      get_healing_policy = (\<lambda>_. policy),
      apply_healing = (\<lambda>a _. (a, \<lparr>validation_passed = outcome, message = ''checked''\<rparr>))\<rparr>"

definition ex_policy :: "string list" where
  "ex_policy = [''reset_memory'', ''rollback_prompt'']"

definition ex_severe_env :: "(nat, nat) env" where
  "ex_severe_env = ex_env (15 / 2) ex_policy False"

definition ex_mild_env :: "(nat, nat) env" where
  "ex_mild_env = ex_env 4 ex_policy False"

definition ex_pending :: orch where
  "ex_pending = sweep_agent ex_severe_env ''VPN'' (init_orch ex_pool)"

definition ex_rejected :: orch where
  "ex_rejected = approve_and_schedule ex_severe_env ''VPN'' False ''dashboard'' ex_pending"

text \<open>
  The state \<open>ex_rejected\<close> with the rejected agent taken out of the quarantine set.
  Here the sweep body passes the tests of lines 127-137 and reaches a positive
  detection, so that the test of line 146 alone decides what happens.
\<close>

definition ex_rejected_released :: orch where
  "ex_rejected_released = quarantine_release ''VPN'' ex_rejected"

definition ex_all_pending :: orch where
  "ex_all_pending = sentinel_sweep ex_severe_env (init_orch ex_pool)"

definition ex_task :: heal_task where
  "ex_task = \<lparr>t_agent_id = ''VPN'', t_infection = ex_report 4, t_trigger = ''auto'', t_pc = Created\<rparr>"

definition ex_auto :: orch where
  "ex_auto = sweep_agent ex_mild_env ''VPN'' (init_orch ex_pool)"

definition ex_started :: orch where
  "ex_started =
     (snd (run_task ex_mild_env ex_task ex_auto))
       \<lparr>loop_tasks := (case fst (run_task ex_mild_env ex_task ex_auto) of
                         None \<Rightarrow> [] | Some t' \<Rightarrow> [t'])\<rparr>"

text \<open>
  An agent is detected with a mild infection, its healing runs and fails with every
  action of the example policy, the coroutine leaves the event loop, and the next
  sweep detects the agent again.
\<close>

definition ex_detected :: "string \<Rightarrow> orch" where
  "ex_detected aid = sweep_agent ex_mild_env aid (init_orch ex_pool)"

definition ex_tried :: "string \<Rightarrow> orch" where
  "ex_tried aid =
     (snd (heal_agent ex_mild_env aid (ex_report 4) ''auto'' (ex_detected aid)))
       \<lparr>loop_tasks := []\<rparr>"

definition ex_redetected :: "string \<Rightarrow> orch" where
  "ex_redetected aid = sweep_agent ex_mild_env aid (ex_tried aid)"

section \<open>The action log is a bounded window\<close>

lemma log_action_fields:
  "healing_action_log (log_action env ty aid kw st) =
     (let lg = healing_action_log st @
                 [\<lparr>le_type = ty, le_agent_id = aid, le_timestamp = clock env (clock_reads st),
                   le_kwargs = kw\<rparr>]
      in if length lg > action_log_max st then py_slice_last (action_log_max st) lg else lg)"
  "action_log_max (log_action env ty aid kw st) = action_log_max st"
  "clock_reads (log_action env ty aid kw st) = Suc (clock_reads st)"
  by (simp_all add: log_action_def time_time_def Let_def)

lemma trim_append:
  assumes "0 < m"
  shows "(let lg = drop (length H - m) H @ [e]
          in if length lg > m then py_slice_last m lg else lg) =
         drop (length (H @ [e]) - m) (H @ [e])"
proof (cases "length H < m")
  case True
  then show ?thesis by (simp add: Let_def)
next
  case False
  then have "length H - m + 1 = Suc (length H) - m" by simp
  with False assms show ?thesis
    by (simp add: Let_def py_slice_last_def Suc_diff_le)
qed

lemma log_actions_window:
  assumes "0 < action_log_max st"
    and "healing_action_log st = drop (length H - action_log_max st) H"
  shows "healing_action_log (log_actions env reqs st) =
           drop (length (H @ built_entries env (clock_reads st) reqs) - action_log_max st)
             (H @ built_entries env (clock_reads st) reqs)
         \<and> action_log_max (log_actions env reqs st) = action_log_max st"
  using assms
proof (induction reqs arbitrary: st H)
  case Nil
  then show ?case by simp
next
  case (Cons r reqs)
  obtain ty aid kw where r: "r = (ty, aid, kw)" by (cases r) auto
  let ?e = "\<lparr>le_type = ty, le_agent_id = aid, le_timestamp = clock env (clock_reads st),
              le_kwargs = kw\<rparr>"
  let ?st = "log_action env ty aid kw st"
  have "healing_action_log ?st = drop (length (H @ [?e]) - action_log_max st) (H @ [?e])"
    using trim_append [OF Cons.prems(1), of H ?e] Cons.prems(2)
    by (simp add: log_action_fields Let_def)
  then have "healing_action_log (log_actions env reqs ?st) =
           drop (length ((H @ [?e]) @ built_entries env (clock_reads ?st) reqs) - action_log_max ?st)
             ((H @ [?e]) @ built_entries env (clock_reads ?st) reqs)
         \<and> action_log_max (log_actions env reqs ?st) = action_log_max ?st"
    using Cons.IH [of ?st "H @ [?e]"] Cons.prems(1) by (simp add: log_action_fields)
  then show ?case by (simp add: r log_action_fields)
qed

lemma length_built_entries: "length (built_entries env n reqs) = length reqs"
  by (induction reqs arbitrary: n) auto

text \<open>
  Claim C8. Starting from the state that \<open>__init__\<close> builds, after any sequence of
  calls of \<open>_log_action\<close> the action log holds the entries built by the last
  \<open>min n 80\<close> of the \<open>n\<close> calls, in the order of the calls; older entries are gone.
\<close>

theorem log_retains_newest:
  "healing_action_log (log_actions env reqs (init_orch as)) =
     drop (length reqs - 80) (built_entries env 0 reqs)
   \<and> length (healing_action_log (log_actions env reqs (init_orch as))) = min (length reqs) 80"
proof -
  have "healing_action_log (log_actions env reqs (init_orch as)) =
     drop (length reqs - 80) (built_entries env 0 reqs)"
    using log_actions_window [of "init_orch as" "[]" env reqs]
    by (simp add: init_orch_def length_built_entries)
  then show ?thesis by (auto simp: length_built_entries)
qed

text \<open>
  Claim C10. \<open>get_healing_actions\<close> is a read of the state: its value is the last
  \<open>min n 50\<close> entries of the log in insertion order. After any sequence of calls of
  \<open>_log_action\<close> on the initial state these are the entries of the newest 50 calls,
  while the retention cap stays at 80, which is more than 50.
\<close>

theorem get_healing_actions_newest_50:
  "get_healing_actions st =
     drop (length (healing_action_log st) - 50) (healing_action_log st)
   \<and> length (get_healing_actions st) = min (length (healing_action_log st)) 50
   \<and> get_healing_actions (log_actions env reqs (init_orch as)) =
       drop (length reqs - 50) (built_entries env 0 reqs)
   \<and> (50 :: nat) < action_log_max (log_actions env reqs (init_orch as))"
proof -
  have a: "get_healing_actions st =
     drop (length (healing_action_log st) - 50) (healing_action_log st)" for st
    by (simp add: get_healing_actions_def py_slice_last_def)
  have b: "healing_action_log (log_actions env reqs (init_orch as)) =
     drop (length reqs - 80) (built_entries env 0 reqs)"
    and c: "action_log_max (log_actions env reqs (init_orch as)) = 80"
    using log_actions_window [of "init_orch as" "[]" env reqs]
    by (simp_all add: init_orch_def length_built_entries)
  have "get_healing_actions (log_actions env reqs (init_orch as)) =
       drop (length reqs - 50) (built_entries env 0 reqs)"
  proof -
    have "length reqs - (length reqs - 80 + 50) + (length reqs - 80) = length reqs - 50"
      by arith
    then show ?thesis by (simp add: a b length_built_entries)
  qed
  with a c show ?thesis by (auto simp: a)
qed

section \<open>Projections of the helpers\<close>

lemma logger_proj [simp]:
  "agents (logger lvl fmt aid st) = agents st"
  "quarantined (logger lvl fmt aid st) = quarantined st"
  "total_quarantines (logger lvl fmt aid st) = total_quarantines st"
  "memory_records (logger lvl fmt aid st) = memory_records st"
  "total_infections (logger lvl fmt aid st) = total_infections st"
  "total_healed (logger lvl fmt aid st) = total_healed st"
  "total_failed_healings (logger lvl fmt aid st) = total_failed_healings st"
  "pending_approvals (logger lvl fmt aid st) = pending_approvals st"
  "rejected_approvals (logger lvl fmt aid st) = rejected_approvals st"
  "healing_in_progress (logger lvl fmt aid st) = healing_in_progress st"
  "healing_action_log (logger lvl fmt aid st) = healing_action_log st"
  "action_log_max (logger lvl fmt aid st) = action_log_max st"
  "logger_out (logger lvl fmt aid st) = logger_out st @ [(lvl, fmt, aid)]"
  "clock_reads (logger lvl fmt aid st) = clock_reads st"
  "loop_tasks (logger lvl fmt aid st) = loop_tasks st"
  by (simp_all add: logger_def)

lemma time_time_proj [simp]:
  "agents (snd (time_time env st)) = agents st"
  "quarantined (snd (time_time env st)) = quarantined st"
  "total_quarantines (snd (time_time env st)) = total_quarantines st"
  "memory_records (snd (time_time env st)) = memory_records st"
  "total_infections (snd (time_time env st)) = total_infections st"
  "total_healed (snd (time_time env st)) = total_healed st"
  "total_failed_healings (snd (time_time env st)) = total_failed_healings st"
  "pending_approvals (snd (time_time env st)) = pending_approvals st"
  "rejected_approvals (snd (time_time env st)) = rejected_approvals st"
  "healing_in_progress (snd (time_time env st)) = healing_in_progress st"
  "healing_action_log (snd (time_time env st)) = healing_action_log st"
  "action_log_max (snd (time_time env st)) = action_log_max st"
  "logger_out (snd (time_time env st)) = logger_out st"
  "clock_reads (snd (time_time env st)) = Suc (clock_reads st)"
  "loop_tasks (snd (time_time env st)) = loop_tasks st"
  by (simp_all add: time_time_def)

lemma log_action_proj [simp]:
  "agents (log_action env ty aid kw st) = agents st"
  "quarantined (log_action env ty aid kw st) = quarantined st"
  "total_quarantines (log_action env ty aid kw st) = total_quarantines st"
  "memory_records (log_action env ty aid kw st) = memory_records st"
  "total_infections (log_action env ty aid kw st) = total_infections st"
  "total_healed (log_action env ty aid kw st) = total_healed st"
  "total_failed_healings (log_action env ty aid kw st) = total_failed_healings st"
  "pending_approvals (log_action env ty aid kw st) = pending_approvals st"
  "rejected_approvals (log_action env ty aid kw st) = rejected_approvals st"
  "healing_in_progress (log_action env ty aid kw st) = healing_in_progress st"
  "action_log_max (log_action env ty aid kw st) = action_log_max st"
  "logger_out (log_action env ty aid kw st) = logger_out st"
  "clock_reads (log_action env ty aid kw st) = Suc (clock_reads st)"
  "loop_tasks (log_action env ty aid kw st) = loop_tasks st"
  by (simp_all add: log_action_def time_time_def Let_def)

lemma update_agent_proj [simp]:
  "agents (update_agent aid f st) = map (\<lambda>(k, a). if k = aid then (k, f a) else (k, a)) (agents st)"
  "quarantined (update_agent aid f st) = quarantined st"
  "total_quarantines (update_agent aid f st) = total_quarantines st"
  "memory_records (update_agent aid f st) = memory_records st"
  "total_infections (update_agent aid f st) = total_infections st"
  "total_healed (update_agent aid f st) = total_healed st"
  "total_failed_healings (update_agent aid f st) = total_failed_healings st"
  "pending_approvals (update_agent aid f st) = pending_approvals st"
  "rejected_approvals (update_agent aid f st) = rejected_approvals st"
  "healing_in_progress (update_agent aid f st) = healing_in_progress st"
  "healing_action_log (update_agent aid f st) = healing_action_log st"
  "action_log_max (update_agent aid f st) = action_log_max st"
  "logger_out (update_agent aid f st) = logger_out st"
  "clock_reads (update_agent aid f st) = clock_reads st"
  "loop_tasks (update_agent aid f st) = loop_tasks st"
  by (simp_all add: update_agent_def)

lemma quarantine_add_proj [simp]:
  "agents (quarantine_add aid st) = agents st"
  "quarantined (quarantine_add aid st) = insert aid (quarantined st)"
  "total_quarantines (quarantine_add aid st) = total_quarantines st + 1"
  "memory_records (quarantine_add aid st) = memory_records st"
  "total_infections (quarantine_add aid st) = total_infections st"
  "total_healed (quarantine_add aid st) = total_healed st"
  "total_failed_healings (quarantine_add aid st) = total_failed_healings st"
  "pending_approvals (quarantine_add aid st) = pending_approvals st"
  "rejected_approvals (quarantine_add aid st) = rejected_approvals st"
  "healing_in_progress (quarantine_add aid st) = healing_in_progress st"
  "healing_action_log (quarantine_add aid st) = healing_action_log st"
  "action_log_max (quarantine_add aid st) = action_log_max st"
  "logger_out (quarantine_add aid st) = logger_out st"
  "clock_reads (quarantine_add aid st) = clock_reads st"
  "loop_tasks (quarantine_add aid st) = loop_tasks st"
  by (simp_all add: quarantine_add_def)

lemma quarantine_release_proj [simp]:
  "agents (quarantine_release aid st) = agents st"
  "quarantined (quarantine_release aid st) = quarantined st - {aid}"
  "total_quarantines (quarantine_release aid st) = total_quarantines st"
  "memory_records (quarantine_release aid st) = memory_records st"
  "total_infections (quarantine_release aid st) = total_infections st"
  "total_healed (quarantine_release aid st) = total_healed st"
  "total_failed_healings (quarantine_release aid st) = total_failed_healings st"
  "pending_approvals (quarantine_release aid st) = pending_approvals st"
  "rejected_approvals (quarantine_release aid st) = rejected_approvals st"
  "healing_in_progress (quarantine_release aid st) = healing_in_progress st"
  "healing_action_log (quarantine_release aid st) = healing_action_log st"
  "action_log_max (quarantine_release aid st) = action_log_max st"
  "logger_out (quarantine_release aid st) = logger_out st"
  "clock_reads (quarantine_release aid st) = clock_reads st"
  "loop_tasks (quarantine_release aid st) = loop_tasks st"
  by (simp_all add: quarantine_release_def)

lemma record_healing_proj [simp]:
  "agents (record_healing aid dt a b st) = agents st"
  "quarantined (record_healing aid dt a b st) = quarantined st"
  "total_quarantines (record_healing aid dt a b st) = total_quarantines st"
  "memory_records (record_healing aid dt a b st) = memory_records st @ [\<lparr>hr_agent_id = aid, hr_diagnosis_type = dt, hr_healing_action = a, hr_success = b\<rparr>]"
  "total_infections (record_healing aid dt a b st) = total_infections st"
  "total_healed (record_healing aid dt a b st) = total_healed st"
  "total_failed_healings (record_healing aid dt a b st) = total_failed_healings st"
  "pending_approvals (record_healing aid dt a b st) = pending_approvals st"
  "rejected_approvals (record_healing aid dt a b st) = rejected_approvals st"
  "healing_in_progress (record_healing aid dt a b st) = healing_in_progress st"
  "healing_action_log (record_healing aid dt a b st) = healing_action_log st"
  "action_log_max (record_healing aid dt a b st) = action_log_max st"
  "logger_out (record_healing aid dt a b st) = logger_out st"
  "clock_reads (record_healing aid dt a b st) = clock_reads st"
  "loop_tasks (record_healing aid dt a b st) = loop_tasks st"
  by (simp_all add: record_healing_def)

lemma create_task_proj [simp]:
  "agents (create_task aid i trg st) = agents st"
  "quarantined (create_task aid i trg st) = quarantined st"
  "total_quarantines (create_task aid i trg st) = total_quarantines st"
  "memory_records (create_task aid i trg st) = memory_records st"
  "total_infections (create_task aid i trg st) = total_infections st"
  "total_healed (create_task aid i trg st) = total_healed st"
  "total_failed_healings (create_task aid i trg st) = total_failed_healings st"
  "pending_approvals (create_task aid i trg st) = pending_approvals st"
  "rejected_approvals (create_task aid i trg st) = rejected_approvals st"
  "healing_in_progress (create_task aid i trg st) = healing_in_progress st"
  "healing_action_log (create_task aid i trg st) = healing_action_log st"
  "action_log_max (create_task aid i trg st) = action_log_max st"
  "logger_out (create_task aid i trg st) = logger_out st"
  "clock_reads (create_task aid i trg st) = clock_reads st"
  "loop_tasks (create_task aid i trg st) = loop_tasks st @ [\<lparr>t_agent_id = aid, t_infection = i, t_trigger = trg, t_pc = Created\<rparr>]"
  by (simp_all add: create_task_def)

lemma heal_finally_proj [simp]:
  "agents (heal_finally aid st) = agents st"
  "quarantined (heal_finally aid st) = quarantined st"
  "total_quarantines (heal_finally aid st) = total_quarantines st"
  "memory_records (heal_finally aid st) = memory_records st"
  "total_infections (heal_finally aid st) = total_infections st"
  "total_healed (heal_finally aid st) = total_healed st"
  "total_failed_healings (heal_finally aid st) = total_failed_healings st"
  "pending_approvals (heal_finally aid st) = pending_approvals st"
  "rejected_approvals (heal_finally aid st) = rejected_approvals st"
  "healing_in_progress (heal_finally aid st) = healing_in_progress st - {aid}"
  "healing_action_log (heal_finally aid st) = healing_action_log st"
  "action_log_max (heal_finally aid st) = action_log_max st"
  "logger_out (heal_finally aid st) = logger_out st"
  "clock_reads (heal_finally aid st) = clock_reads st"
  "loop_tasks (heal_finally aid st) = loop_tasks st"
  by (simp_all add: heal_finally_def)

lemma fst_time_time [simp]: "fst (time_time env st) = clock env (clock_reads st)"
  by (simp add: time_time_def)

lemma dict_pop_absent:
  "k \<notin> set (map fst d) \<Longrightarrow> dict_pop k d = (None, d)"
  by (simp add: dict_pop_def map_of_eq_None_iff)

lemma task_count:
  "length (filter (\<lambda>t. t_agent_id t = aid) ts) = length (filter (\<lambda>a. a = aid) (map t_agent_id ts))"
  by (induction ts) auto

lemmas ex_simps = ex_env_def ex_pool_def ex_report_def ex_diagnosis_def new_agent_def infect_def
  ex_policy_def ex_severe_env_def ex_mild_env_def ex_task_def
  init_orch_def agents_dict_def sentinel_sweep_def sweep_agent_def is_quarantined_def
  SEVERITY_REQUIRING_APPROVAL_def Let_def case_prod_beta

lemma ex_pending_fields:
  "map fst (pending_approvals ex_pending) = [''VPN'']"
  "rejected_approvals ex_pending = []"
  "quarantined ex_pending = {''VPN''}"
  "loop_tasks ex_pending = []"
  by (simp_all add: ex_pending_def ex_simps)

lemma ex_pending_reachable: "reachable (UNIV :: (nat, nat) env set) ex_pending"
proof -
  have "step (UNIV :: (nat, nat) env set) (init_orch ex_pool) (sweep_agent ex_severe_env ''VPN'' (init_orch ex_pool))"
    by (rule step_sweep) (simp_all add: ex_simps)
  then show ?thesis
    unfolding ex_pending_def by (rule reachable_step [OF reachable_init])
qed

lemma ex_rejected_fields:
  "pending_approvals ex_rejected = []"
  "map fst (rejected_approvals ex_rejected) = [''VPN'']"
  "quarantined ex_rejected = {''VPN''}"
  "loop_tasks ex_rejected = []"
  by (simp_all add: ex_rejected_def approve_and_schedule_def approve_healing_def dict_pop_def
      ex_pending_def ex_simps)

lemma ex_rejected_reachable: "reachable (UNIV :: (nat, nat) env set) ex_rejected"
proof -
  have "step (UNIV :: (nat, nat) env set) ex_pending
          (approve_and_schedule ex_severe_env ''VPN'' False ''dashboard'' ex_pending)"
    by (rule step_approve) simp
  then show ?thesis
    unfolding ex_rejected_def by (rule reachable_step [OF ex_pending_reachable])
qed

lemma ex_auto_fields:
  "loop_tasks ex_auto = [ex_task]"
  "pending_approvals ex_auto = []"
  "quarantined ex_auto = {''VPN''}"
  "healing_in_progress ex_auto = {}"
  "map fst (agents ex_auto) = [''VPN'', ''Docker'', ''Slack'']"
  by (simp_all add: ex_auto_def ex_simps)

lemma ex_auto_reachable: "reachable (UNIV :: (nat, nat) env set) ex_auto"
proof -
  have "step (UNIV :: (nat, nat) env set) (init_orch ex_pool) (sweep_agent ex_mild_env ''VPN'' (init_orch ex_pool))"
    by (rule step_sweep) (simp_all add: ex_simps)
  then show ?thesis
    unfolding ex_auto_def by (rule reachable_step [OF reachable_init])
qed

lemma ex_started_reachable: "reachable (UNIV :: (nat, nat) env set) ex_started"
proof -
  have "step (UNIV :: (nat, nat) env set) ex_auto
     ((snd (run_task ex_mild_env ex_task ex_auto))
       \<lparr>loop_tasks := [] @ (case fst (run_task ex_mild_env ex_task ex_auto) of
                         None \<Rightarrow> [] | Some t' \<Rightarrow> [t']) @ []\<rparr>)"
    by (rule step_task [where env = ex_mild_env]) (simp_all add: ex_auto_fields)
  then have "step (UNIV :: (nat, nat) env set) ex_auto ex_started" by (simp add: ex_started_def)
  then show ?thesis by (rule reachable_step [OF ex_auto_reachable])
qed

lemma ex_started_fields:
  "map t_agent_id (loop_tasks ex_started) = [''VPN'']"
  "healing_in_progress ex_started = {''VPN''}"
  by (simp_all add: ex_started_def run_task_def heal_entry_def heal_diagnose_def
      ex_auto_def ex_simps heal_finally_def)

section \<open>The invariant of the running system\<close>

lemma inv_init: "orch_inv (init_orch as)"
  by (simp add: orch_inv_def tokens_def chains_def started_def init_orch_def)

text \<open>What one sweep body does to the fields that the invariant reads.\<close>

lemma sweep_agent_cases:
  "sweep_agent env aid st = st \<or>
   (aid \<notin> quarantined st \<and> aid \<notin> set (map fst (rejected_approvals st)) \<and>
    quarantined (sweep_agent env aid st) = insert aid (quarantined st) \<and>
    rejected_approvals (sweep_agent env aid st) = rejected_approvals st \<and>
    healing_in_progress (sweep_agent env aid st) = healing_in_progress st \<and>
    action_log_max (sweep_agent env aid st) = action_log_max st \<and>
    ((\<exists>e. pending_approvals (sweep_agent env aid st) = AList.update aid e (pending_approvals st)) \<and>
       loop_tasks (sweep_agent env aid st) = loop_tasks st
     \<or> pending_approvals (sweep_agent env aid st) = pending_approvals st \<and>
       (\<exists>i. loop_tasks (sweep_agent env aid st) =
          loop_tasks st @ [\<lparr>t_agent_id = aid, t_infection = i, t_trigger = ''auto'', t_pc = Created\<rparr>])))"
  by (auto simp: sweep_agent_def Let_def case_prod_beta is_quarantined_def split: option.splits)

lemma tokens_frame:
  assumes "set (map fst (pending_approvals st')) = set (map fst (pending_approvals st))"
    and "set (map fst (rejected_approvals st')) = set (map fst (rejected_approvals st))"
    and "loop_tasks st' = loop_tasks st"
  shows "tokens st' a = tokens st a"
  using assms by (simp add: tokens_def chains_def)

lemma inv_sweep:
  assumes "orch_inv st"
  shows "orch_inv (sweep_agent env aid st)"
proof -
  let ?s = "sweep_agent env aid st"
  from sweep_agent_cases [of env aid st] consider
      (same) "?s = st"
    | (pend) e where "aid \<notin> quarantined st" "quarantined ?s = insert aid (quarantined st)"
        "rejected_approvals ?s = rejected_approvals st"
        "healing_in_progress ?s = healing_in_progress st"
        "action_log_max ?s = action_log_max st"
        "pending_approvals ?s = AList.update aid e (pending_approvals st)"
        "loop_tasks ?s = loop_tasks st"
    | (task) i where "aid \<notin> quarantined st" "quarantined ?s = insert aid (quarantined st)"
        "rejected_approvals ?s = rejected_approvals st"
        "healing_in_progress ?s = healing_in_progress st"
        "action_log_max ?s = action_log_max st"
        "pending_approvals ?s = pending_approvals st"
        "loop_tasks ?s =
          loop_tasks st @ [\<lparr>t_agent_id = aid, t_infection = i, t_trigger = ''auto'', t_pc = Created\<rparr>]"
    by blast
  then show ?thesis
  proof cases
    case same
    with assms show ?thesis by simp
  next
    case pend
    have z: "tokens st aid = 0" using assms pend(1) unfolding orch_inv_def by auto
    have t: "tokens ?s a = (if a = aid then 1 else tokens st a)" for a
      using z pend by (auto simp: tokens_def chains_def update_keys split: if_splits)
    show ?thesis
      using assms pend t unfolding orch_inv_def by (auto simp: started_def)
  next
    case task
    have z: "tokens st aid = 0" using assms task(1) unfolding orch_inv_def by auto
    have t: "tokens ?s a = (if a = aid then 1 else tokens st a)" for a
      using z task by (auto simp: tokens_def chains_def split: if_splits)
    show ?thesis
      using assms task t unfolding orch_inv_def by (auto simp: started_def)
  qed
qed

lemma approve_and_schedule_cases:
  "approve_and_schedule env aid approved trigger st = st \<or>
   (aid \<in> set (map fst (pending_approvals st)) \<and>
    quarantined (approve_and_schedule env aid approved trigger st) = quarantined st \<and>
    healing_in_progress (approve_and_schedule env aid approved trigger st) = healing_in_progress st \<and>
    action_log_max (approve_and_schedule env aid approved trigger st) = action_log_max st \<and>
    pending_approvals (approve_and_schedule env aid approved trigger st) =
      AList.delete aid (pending_approvals st) \<and>
    ((\<exists>i. loop_tasks (approve_and_schedule env aid approved trigger st) =
            loop_tasks st @ [\<lparr>t_agent_id = aid, t_infection = i, t_trigger = trigger, t_pc = Created\<rparr>]) \<and>
       rejected_approvals (approve_and_schedule env aid approved trigger st) = rejected_approvals st
     \<or> loop_tasks (approve_and_schedule env aid approved trigger st) = loop_tasks st \<and>
       (\<exists>e. rejected_approvals (approve_and_schedule env aid approved trigger st) =
            AList.update aid e (rejected_approvals st))))"
proof (cases "map_of (pending_approvals st) aid")
  case None
  then have "aid \<notin> set (map fst (pending_approvals st))"
    by (simp add: map_of_eq_None_iff)
  then show ?thesis
    by (simp add: approve_and_schedule_def approve_healing_def dict_pop_absent)
next
  case (Some e)
  then have "aid \<in> set (map fst (pending_approvals st))"
    by (metis map_of_eq_None_iff option.distinct(1) set_map)
  with Some show ?thesis
    by (cases approved)
      (auto simp: approve_and_schedule_def approve_healing_def dict_pop_def Let_def
        case_prod_beta)
qed

lemma heal_now_and_schedule_cases:
  "heal_now_and_schedule env aid trigger st = st \<or>
   (aid \<in> set (map fst (rejected_approvals st)) \<and>
    quarantined (heal_now_and_schedule env aid trigger st) = quarantined st \<and>
    healing_in_progress (heal_now_and_schedule env aid trigger st) = healing_in_progress st \<and>
    action_log_max (heal_now_and_schedule env aid trigger st) = action_log_max st \<and>
    pending_approvals (heal_now_and_schedule env aid trigger st) = pending_approvals st \<and>
    rejected_approvals (heal_now_and_schedule env aid trigger st) =
      AList.delete aid (rejected_approvals st) \<and>
    (\<exists>i. loop_tasks (heal_now_and_schedule env aid trigger st) =
            loop_tasks st @ [\<lparr>t_agent_id = aid, t_infection = i, t_trigger = trigger, t_pc = Created\<rparr>]))"
proof (cases "map_of (rejected_approvals st) aid")
  case None
  then have "aid \<notin> set (map fst (rejected_approvals st))"
    by (simp add: map_of_eq_None_iff)
  then show ?thesis
    by (simp add: heal_now_and_schedule_def start_healing_explicitly_def dict_pop_absent)
next
  case (Some e)
  then have "aid \<in> set (map fst (rejected_approvals st))"
    by (metis map_of_eq_None_iff option.distinct(1) set_map)
  with Some show ?thesis
    by (auto simp: heal_now_and_schedule_def start_healing_explicitly_def dict_pop_def Let_def
        case_prod_beta)
qed

lemma keys_delete: "fst ` set (AList.delete k al) = fst ` set al - {k}"
  using delete_keys [of k al] by (metis set_map set_removeAll)

lemma keys_update: "fst ` set (AList.update k v al) = insert k (fst ` set al)"
  by (simp add: dom_update)

lemma inv_approve:
  assumes "orch_inv st"
  shows "orch_inv (approve_and_schedule env aid approved trigger st)"
proof -
  let ?s = "approve_and_schedule env aid approved trigger st"
  from approve_and_schedule_cases [of env aid approved trigger st] consider
      (same) "?s = st"
    | (yes) i where "aid \<in> set (map fst (pending_approvals st))"
        "quarantined ?s = quarantined st" "healing_in_progress ?s = healing_in_progress st"
        "action_log_max ?s = action_log_max st"
        "pending_approvals ?s = AList.delete aid (pending_approvals st)"
        "loop_tasks ?s =
           loop_tasks st @ [\<lparr>t_agent_id = aid, t_infection = i, t_trigger = trigger, t_pc = Created\<rparr>]"
        "rejected_approvals ?s = rejected_approvals st"
    | (no) e where "aid \<in> set (map fst (pending_approvals st))"
        "quarantined ?s = quarantined st" "healing_in_progress ?s = healing_in_progress st"
        "action_log_max ?s = action_log_max st"
        "pending_approvals ?s = AList.delete aid (pending_approvals st)"
        "loop_tasks ?s = loop_tasks st"
        "rejected_approvals ?s = AList.update aid e (rejected_approvals st)"
    by blast
  then show ?thesis
  proof cases
    case same
    with assms show ?thesis by simp
  next
    case yes
    have "tokens st aid \<le> 1" using assms unfolding orch_inv_def by blast
    then have t: "tokens ?s a = tokens st a" for a
      using yes by (auto simp: tokens_def chains_def keys_delete split: if_splits)
    show ?thesis
      using assms yes t unfolding orch_inv_def by (auto simp: started_def)
  next
    case no
    have "tokens st aid \<le> 1" using assms unfolding orch_inv_def by blast
    then have t: "tokens ?s a = tokens st a" for a
      using no by (auto simp: tokens_def chains_def keys_delete keys_update split: if_splits)
    show ?thesis
      using assms no t unfolding orch_inv_def by (auto simp: started_def)
  qed
qed

lemma inv_heal_now:
  assumes "orch_inv st"
  shows "orch_inv (heal_now_and_schedule env aid trigger st)"
proof -
  let ?s = "heal_now_and_schedule env aid trigger st"
  from heal_now_and_schedule_cases [of env aid trigger st] consider
      (same) "?s = st"
    | (yes) i where "aid \<in> set (map fst (rejected_approvals st))"
        "quarantined ?s = quarantined st" "healing_in_progress ?s = healing_in_progress st"
        "action_log_max ?s = action_log_max st"
        "pending_approvals ?s = pending_approvals st"
        "rejected_approvals ?s = AList.delete aid (rejected_approvals st)"
        "loop_tasks ?s =
           loop_tasks st @ [\<lparr>t_agent_id = aid, t_infection = i, t_trigger = trigger, t_pc = Created\<rparr>]"
    by blast
  then show ?thesis
  proof cases
    case same
    with assms show ?thesis by simp
  next
    case yes
    have "tokens st aid \<le> 1" using assms unfolding orch_inv_def by blast
    then have t: "tokens ?s a = tokens st a" for a
      using yes by (auto simp: tokens_def chains_def keys_delete split: if_splits)
    show ?thesis
      using assms yes t unfolding orch_inv_def by (auto simp: started_def)
  qed
qed

lemma heal_diagnose_effect:
  "pending_approvals (snd (heal_diagnose env aid i st)) = pending_approvals st"
  "rejected_approvals (snd (heal_diagnose env aid i st)) = rejected_approvals st"
  "loop_tasks (snd (heal_diagnose env aid i st)) = loop_tasks st"
  "action_log_max (snd (heal_diagnose env aid i st)) = action_log_max st"
  "quarantined (snd (heal_diagnose env aid i st)) = quarantined st"
  "healing_in_progress (snd (heal_diagnose env aid i st)) = insert aid (healing_in_progress st)"
  by (simp_all add: heal_diagnose_def Let_def split: option.splits)

lemma heal_plan_effect:
  "pending_approvals (snd (heal_plan env aid dg st)) = pending_approvals st"
  "rejected_approvals (snd (heal_plan env aid dg st)) = rejected_approvals st"
  "loop_tasks (snd (heal_plan env aid dg st)) = loop_tasks st"
  "action_log_max (snd (heal_plan env aid dg st)) = action_log_max st"
  "quarantined (snd (heal_plan env aid dg st)) = quarantined st"
  "healing_in_progress (snd (heal_plan env aid dg st)) = healing_in_progress st"
  by (simp_all add: heal_plan_def Let_def)

lemma heal_select_effect:
  "pending_approvals (snd (heal_select env aid dg fa st)) = pending_approvals st"
  "rejected_approvals (snd (heal_select env aid dg fa st)) = rejected_approvals st"
  "loop_tasks (snd (heal_select env aid dg fa st)) = loop_tasks st"
  "action_log_max (snd (heal_select env aid dg fa st)) = action_log_max st"
  "healing_in_progress (snd (heal_select env aid dg fa st)) = healing_in_progress st"
  "quarantined (snd (heal_select env aid dg fa st)) =
     (if fst (heal_select env aid dg fa st) = None then quarantined st - {aid} else quarantined st)"
  by (simp_all add: heal_select_def split: option.splits)

lemma heal_apply_effect:
  "pending_approvals (snd (heal_apply env aid dg a trg st)) = pending_approvals st"
  "rejected_approvals (snd (heal_apply env aid dg a trg st)) = rejected_approvals st"
  "loop_tasks (snd (heal_apply env aid dg a trg st)) = loop_tasks st"
  "action_log_max (snd (heal_apply env aid dg a trg st)) = action_log_max st"
  "healing_in_progress (snd (heal_apply env aid dg a trg st)) = healing_in_progress st"
  "quarantined (snd (heal_apply env aid dg a trg st)) =
     (if fst (heal_apply env aid dg a trg st) = Some Healed then quarantined st - {aid}
      else quarantined st)"
  by (simp_all add: heal_apply_def Let_def case_prod_beta split: option.splits)

text \<open>What one scheduling of a coroutine does to the fields that the invariant reads.\<close>

lemma run_task_frame:
  "pending_approvals (snd (run_task env t st)) = pending_approvals st"
  "rejected_approvals (snd (run_task env t st)) = rejected_approvals st"
  "loop_tasks (snd (run_task env t st)) = loop_tasks st"
  "action_log_max (snd (run_task env t st)) = action_log_max st"
  by (simp_all add: run_task_def heal_entry_def case_prod_beta heal_diagnose_effect
      heal_plan_effect heal_select_effect heal_apply_effect
      split: heal_pc.splits option.splits)

lemma run_task_continues:
  assumes "fst (run_task env t st) = Some t'"
  shows "t_agent_id t' = t_agent_id t \<and> t_pc t' \<noteq> Created
    \<and> quarantined (snd (run_task env t st)) = quarantined st
    \<and> (healing_in_progress (snd (run_task env t st)) = insert (t_agent_id t) (healing_in_progress st)
       \<or> t_pc t \<noteq> Created \<and>
         healing_in_progress (snd (run_task env t st)) = healing_in_progress st)"
  using assms
  by (auto simp: run_task_def heal_entry_def case_prod_beta heal_diagnose_effect
      heal_plan_effect heal_select_effect heal_apply_effect
      split: heal_pc.splits option.splits if_splits)

lemma run_task_ends:
  assumes "fst (run_task env t st) = None"
  shows "healing_in_progress (snd (run_task env t st)) = healing_in_progress st - {t_agent_id t}
    \<and> quarantined st - {t_agent_id t} \<subseteq> quarantined (snd (run_task env t st))
    \<and> quarantined (snd (run_task env t st)) \<subseteq> quarantined st"
  using assms
  by (auto simp: run_task_def heal_entry_def case_prod_beta heal_diagnose_effect
      heal_plan_effect heal_select_effect heal_apply_effect
      split: heal_pc.splits option.splits if_splits)

lemma inv_task:
  assumes inv: "orch_inv st"
    and tasks: "loop_tasks st = xs @ t # ys"
    and run: "run_task env t st = (r, st1)"
  shows "orch_inv (st1\<lparr>loop_tasks := xs @ (case r of None \<Rightarrow> [] | Some t' \<Rightarrow> [t']) @ ys\<rparr>)"
proof -
  let ?aid = "t_agent_id t"
  let ?s = "st1\<lparr>loop_tasks := xs @ (case r of None \<Rightarrow> [] | Some t' \<Rightarrow> [t']) @ ys\<rparr>"
  have st1: "st1 = snd (run_task env t st)" and r: "r = fst (run_task env t st)"
    using run by simp_all
  have fr: "pending_approvals st1 = pending_approvals st"
    "rejected_approvals st1 = rejected_approvals st" "action_log_max st1 = action_log_max st"
    by (simp_all add: st1 run_task_frame)
  have le: "tokens st a \<le> 1" and q: "0 < tokens st a \<Longrightarrow> a \<in> quarantined st"
    and hip: "a \<in> healing_in_progress st \<longleftrightarrow> started st a" for a
    using inv unfolding orch_inv_def by blast+
  have one: "chains st ?aid = 1" and none: "\<forall>u \<in> set (xs @ ys). t_agent_id u \<noteq> ?aid"
    using le [of ?aid] tasks
    by (auto simp: tokens_def chains_def filter_empty_conv split: if_splits)
  show ?thesis
  proof (cases r)
    case (Some t')
    from run_task_continues [of env t st t'] Some r
    have id: "t_agent_id t' = ?aid" and pc: "t_pc t' \<noteq> Created"
      and qq: "quarantined st1 = quarantined st"
      and hh: "healing_in_progress st1 = insert ?aid (healing_in_progress st)
         \<or> t_pc t \<noteq> Created \<and> healing_in_progress st1 = healing_in_progress st"
      by (simp_all add: st1)
    have t: "tokens ?s a = tokens st a" for a
      using fr tasks id Some by (simp add: tokens_def chains_def)
    have h: "healing_in_progress st1 = insert ?aid (healing_in_progress st)"
      using hh hip [of ?aid] tasks by (auto simp: started_def)
    have s: "started ?s a \<longleftrightarrow> a = ?aid \<or> started st a" for a
      using tasks Some id pc by (auto simp: started_def)
    show ?thesis
      using inv t qq h s fr unfolding orch_inv_def by auto
  next
    case None
    from run_task_ends [of env t st] None r
    have h: "healing_in_progress st1 = healing_in_progress st - {?aid}"
      and q1: "quarantined st - {?aid} \<subseteq> quarantined st1"
      and q2: "quarantined st1 \<subseteq> quarantined st"
      by (simp_all add: st1)
    have t: "tokens ?s a = (if a = ?aid then 0 else tokens st a)" for a
      using fr tasks None one le [of ?aid] none
      by (auto simp: tokens_def chains_def split: if_splits)
    have s: "started ?s a \<longleftrightarrow> a \<noteq> ?aid \<and> started st a" for a
      using tasks None none by (auto simp: started_def)
    show ?thesis
      using inv t q1 q2 h s fr unfolding orch_inv_def by auto
  qed
qed

lemma inv_infect:
  assumes "orch_inv st"
  shows "orch_inv (update_agent aid f st)"
  using assms by (simp add: orch_inv_def tokens_def chains_def started_def)

lemma step_inv:
  assumes "step E st st'" and "orch_inv st"
  shows "orch_inv st'"
  using assms
  by (induction rule: step.induct)
    (simp_all add: inv_sweep inv_approve inv_heal_now inv_task inv_infect)

lemma reachable_inv:
  assumes "reachable E st"
  shows "orch_inv st"
  using assms by (induction rule: reachable.induct) (auto intro: inv_init step_inv)

lemma last_log_action:
  assumes "0 < action_log_max st"
  shows "last (healing_action_log (log_action env ty aid kw st)) =
           \<lparr>le_type = ty, le_agent_id = aid, le_timestamp = clock env (clock_reads st),
             le_kwargs = kw\<rparr>"
  using assms by (simp add: log_action_fields Let_def py_slice_last_def)

section \<open>Severity routing\<close>

text \<open>
  Claim C1. In every reachable state, when the sweep body of an agent reaches a positive
  detection: with a severity of at least 7 the sweep stores a pending-approval entry
  under the agent id, holding the infection and its diagnosis, appends an
  \<open>approval_requested\<close> entry to the action log and creates no healing coroutine;
  with a severity below 7 it creates the healing coroutine with trigger \<open>auto\<close> and
  there is no pending-approval entry for the agent.
\<close>

theorem severity_routing:
  assumes "reachable E st"
    and "positive_detection env st aid = Some infn"
  shows "(SEVERITY_REQUIRING_APPROVAL \<le> severity infn \<longrightarrow>
            pending_approvals (sweep_agent env aid st) =
              AList.update aid
                \<lparr>infection = infn, diagnosis = diagnose env infn (get_baseline env aid),
                  requested_at = clock env (clock_reads st)\<rparr>
                (pending_approvals st)
          \<and> last (healing_action_log (sweep_agent env aid st)) =
              \<lparr>le_type = ''approval_requested'', le_agent_id = aid,
                le_timestamp = clock env (Suc (clock_reads st)),
                le_kwargs = [(''severity'', PyFloat (round1 (severity infn)))]\<rparr>
          \<and> loop_tasks (sweep_agent env aid st) = loop_tasks st
          \<and> healing_in_progress (sweep_agent env aid st) = healing_in_progress st)
    \<and> (severity infn < SEVERITY_REQUIRING_APPROVAL \<longrightarrow>
            loop_tasks (sweep_agent env aid st) =
              loop_tasks st @
                [\<lparr>t_agent_id = aid, t_infection = infn, t_trigger = ''auto'', t_pc = Created\<rparr>]
          \<and> pending_approvals (sweep_agent env aid st) = pending_approvals st
          \<and> aid \<notin> set (map fst (pending_approvals (sweep_agent env aid st))))"
proof -
  have inv: "orch_inv st" by (rule reachable_inv [OF assms(1)])
  from assms(2) have nq: "aid \<notin> quarantined st" and hb: "has_baseline env aid"
    and rec: "get_recent env aid \<noteq> []"
    and det: "detect_infection env (get_recent env aid) (get_baseline env aid) = Some infn"
    by (auto simp: positive_detection_def is_quarantined_def split: if_splits)
  have "tokens st aid = 0" using inv nq unfolding orch_inv_def by auto
  then have nr: "aid \<notin> set (map fst (rejected_approvals st))"
    and np: "aid \<notin> set (map fst (pending_approvals st))"
    by (auto simp: tokens_def split: if_splits)
  have cap: "action_log_max st = 80" using inv unfolding orch_inv_def by blast
  show ?thesis
  proof (cases "SEVERITY_REQUIRING_APPROVAL \<le> severity infn")
    case True
    then show ?thesis
      using nq hb rec det nr cap
      by (simp add: sweep_agent_def is_quarantined_def Let_def case_prod_beta last_log_action)
  next
    case False
    then show ?thesis
      using nq hb rec det nr np
      by (simp add: sweep_agent_def is_quarantined_def Let_def case_prod_beta)
  qed
qed

theorem severity_routing_witness:
  "map fst (pending_approvals (sweep_agent ex_severe_env ''VPN'' (init_orch ex_pool))) = [''VPN'']
   \<and> loop_tasks (sweep_agent ex_severe_env ''VPN'' (init_orch ex_pool)) = []
   \<and> le_type (last (healing_action_log (sweep_agent ex_severe_env ''VPN'' (init_orch ex_pool)))) =
       ''approval_requested''
   \<and> loop_tasks (sweep_agent ex_mild_env ''VPN'' (init_orch ex_pool)) = [ex_task]
   \<and> pending_approvals (sweep_agent ex_mild_env ''VPN'' (init_orch ex_pool)) = []"
proof -
  have r: "reachable (UNIV :: (nat, nat) env set) (init_orch ex_pool)"
    by (rule reachable_init)
  have d1: "positive_detection ex_severe_env (init_orch ex_pool) ''VPN'' = Some (ex_report (15 / 2))"
    and d2: "positive_detection ex_mild_env (init_orch ex_pool) ''VPN'' = Some (ex_report 4)"
    by (simp_all add: positive_detection_def ex_simps)
  have s1: "SEVERITY_REQUIRING_APPROVAL \<le> severity (ex_report (15 / 2))"
    and s2: "severity (ex_report 4) < SEVERITY_REQUIRING_APPROVAL"
    by (simp_all add: SEVERITY_REQUIRING_APPROVAL_def ex_report_def)
  show ?thesis
    using severity_routing [OF r d1] severity_routing [OF r d2] s1 s2
    by (simp add: init_orch_def ex_task_def)
qed

section \<open>Healing chains and the approval maps\<close>

text \<open>
  Claim C2. In every reachable state there is at most one healing coroutine for an
  agent id, and the id is in \<open>healing_in_progress\<close> exactly when a coroutine for it
  has entered \<open>heal_agent\<close> and has not yet returned. The recursive calls of line 357
  belong to the same coroutine; its end is the only step that removes the id.
\<close>

theorem one_chain_per_agent:
  assumes "reachable E st"
  shows "chains st aid \<le> 1
    \<and> (aid \<in> healing_in_progress st \<longleftrightarrow>
        (\<exists>t \<in> set (loop_tasks st). t_agent_id t = aid \<and> t_pc t \<noteq> Created))"
proof -
  have "tokens st aid \<le> 1" and "aid \<in> healing_in_progress st \<longleftrightarrow> started st aid"
    using reachable_inv [OF assms] unfolding orch_inv_def by blast+
  then show ?thesis by (simp add: tokens_def started_def)
qed

theorem one_chain_per_agent_witness:
  "chains ex_started ''VPN'' = 1 \<and> ''VPN'' \<in> healing_in_progress ex_started
   \<and> chains ex_auto ''VPN'' = 1 \<and> ''VPN'' \<notin> healing_in_progress ex_auto"
  using one_chain_per_agent [OF ex_started_reachable, of "''VPN''"]
    one_chain_per_agent [OF ex_auto_reachable, of "''VPN''"]
  by (simp add: chains_def ex_started_fields ex_auto_fields ex_task_def task_count)

text \<open>
  Claim C3. In every reachable state an agent id is not in both the pending-approval map
  and the rejected-approval map, and an id in either of them is quarantined.
\<close>

theorem approval_maps_exclusive:
  assumes "reachable E st"
  shows "\<not> (aid \<in> set (map fst (pending_approvals st)) \<and>
            aid \<in> set (map fst (rejected_approvals st)))
    \<and> (aid \<in> set (map fst (pending_approvals st)) \<or>
        aid \<in> set (map fst (rejected_approvals st)) \<longrightarrow> aid \<in> quarantined st)"
proof -
  have "tokens st aid \<le> 1" and "0 < tokens st aid \<Longrightarrow> aid \<in> quarantined st"
    using reachable_inv [OF assms] unfolding orch_inv_def by blast+
  then show ?thesis by (auto simp: tokens_def split: if_splits)
qed

theorem approval_maps_exclusive_witness:
  "''VPN'' \<in> set (map fst (pending_approvals ex_pending))
   \<and> ''VPN'' \<notin> set (map fst (rejected_approvals ex_pending))
   \<and> ''VPN'' \<in> quarantined ex_pending
   \<and> ''VPN'' \<in> set (map fst (rejected_approvals ex_rejected))
   \<and> ''VPN'' \<notin> set (map fst (pending_approvals ex_rejected))
   \<and> ''VPN'' \<in> quarantined ex_rejected"
  using approval_maps_exclusive [OF ex_pending_reachable, of "''VPN''"]
    approval_maps_exclusive [OF ex_rejected_reachable, of "''VPN''"]
  by (simp add: ex_pending_fields ex_rejected_fields)

section \<open>Misuse of the approval workflow\<close>

text \<open>
  Claim C6. \<open>approve_healing\<close> for an agent id without a pending-approval entry returns
  \<open>(None, False)\<close>, and \<open>start_healing_explicitly\<close> for an agent id without a
  rejected-approval entry returns \<open>None\<close>; both leave the whole state as it was. The
  model has no raising branch on these paths, as the source has none.
\<close>

theorem misuse_is_noop:
  "(aid \<notin> set (map fst (pending_approvals st)) \<longrightarrow>
      approve_healing env aid approved st = ((None, False), st))
   \<and> (aid \<notin> set (map fst (rejected_approvals st)) \<longrightarrow>
      start_healing_explicitly env aid st = (None, st))"
  by (simp add: approve_healing_def start_healing_explicitly_def dict_pop_absent)

theorem misuse_is_noop_witness:
  "approve_healing ex_severe_env ''Docker'' True ex_pending = ((None, False), ex_pending)
   \<and> start_healing_explicitly ex_severe_env ''VPN'' ex_pending = (None, ex_pending)"
  using misuse_is_noop [of "''Docker''" ex_pending ex_severe_env True]
    misuse_is_noop [of "''VPN''" ex_pending ex_severe_env True]
  by (simp add: ex_pending_fields)

section \<open>Bulk approval\<close>

lemma approve_loop_each:
  "approve_loop env approved ids acc st =
     (acc @ approved_pairs (fst (approve_each env approved ids st)),
      snd (approve_each env approved ids st))"
proof (induction ids arbitrary: acc st)
  case Nil
  then show ?case by simp
next
  case (Cons aid ids)
  obtain i b st1 where a: "approve_healing env aid approved st = ((i, b), st1)"
    by (metis prod.exhaust)
  show ?case
    by (cases i; cases b) (simp_all add: a Cons.IH case_prod_beta)
qed

lemma approve_healing_True_head:
  assumes "pending_approvals st = (k, e) # ps" and "k \<notin> set (map fst ps)"
  shows "fst (approve_healing env k True st) = (Some (infection e), True)"
    and "pending_approvals (snd (approve_healing env k True st)) = ps"
  using assms by (simp_all add: approve_healing_def dict_pop_def)

lemma approve_loop_True_all:
  assumes "distinct (map fst (pending_approvals st))"
  shows "fst (approve_loop env True (map fst (pending_approvals st)) acc st) =
           acc @ map (\<lambda>(k, e). (k, infection e)) (pending_approvals st)
         \<and> pending_approvals (snd (approve_loop env True (map fst (pending_approvals st)) acc st)) = []"
  using assms
proof (induction "pending_approvals st" arbitrary: acc st)
  case Nil
  then show ?case by simp
next
  case (Cons p ps)
  obtain k e where p: "p = (k, e)" by (cases p) auto
  have pend: "pending_approvals st = (k, e) # ps" using Cons.hyps(2) p by simp
  have nin: "k \<notin> set (map fst ps)" using Cons.prems pend by simp
  let ?r = "approve_healing env k True st"
  have f: "fst ?r = (Some (infection e), True)" and s: "pending_approvals (snd ?r) = ps"
    by (rule approve_healing_True_head [OF pend nin])+
  have d: "distinct (map fst (pending_approvals (snd ?r)))" using Cons.prems pend s by simp
  have step: "approve_loop env True (k # map fst ps) acc st =
        approve_loop env True (map fst ps) (acc @ [(k, infection e)]) (snd ?r)"
    by (simp add: case_prod_beta f)
  from Cons.hyps(1) [OF s [symmetric] d, of "acc @ [(k, infection e)]"]
  show ?case by (simp add: step s pend del: approve_loop.simps)
qed

text \<open>
  Claim C7. \<open>approve_all_pending\<close> gives the result and the state of single calls of
  \<open>approve_healing\<close>, one for each agent id of the snapshot in its order. When all
  pending entries are approved, the result lists every pending agent id with its
  infection and the pending-approval map is empty afterwards; with three entries these
  are three pairs.
\<close>

theorem approve_all_is_sequence_of_single:
  "approve_all_pending env approved st =
     (approved_pairs (fst (approve_each env approved (map fst (pending_approvals st)) st)),
      snd (approve_each env approved (map fst (pending_approvals st)) st))
   \<and> (distinct (map fst (pending_approvals st)) \<longrightarrow>
        fst (approve_all_pending env True st) =
          map (\<lambda>(k, e). (k, infection e)) (pending_approvals st)
        \<and> pending_approvals (snd (approve_all_pending env True st)) = [])"
  using approve_loop_True_all [of st env "[]"]
  by (simp add: approve_all_pending_def approve_loop_each)

lemma ex_all_pending_fields:
  "map fst (pending_approvals ex_all_pending) = [''VPN'', ''Docker'', ''Slack'']"
  "map (\<lambda>(k, e). (k, infection e)) (pending_approvals ex_all_pending) =
     [(''VPN'', ex_report (15 / 2)), (''Docker'', ex_report (15 / 2)),
      (''Slack'', ex_report (15 / 2))]"
  by (simp_all add: ex_all_pending_def ex_simps)

theorem approve_all_is_sequence_of_single_witness:
  "fst (approve_all_pending ex_severe_env True ex_all_pending) =
     [(''VPN'', ex_report (15 / 2)), (''Docker'', ex_report (15 / 2)),
      (''Slack'', ex_report (15 / 2))]
   \<and> pending_approvals (snd (approve_all_pending ex_severe_env True ex_all_pending)) = []"
proof -
  have d: "distinct (map fst (pending_approvals ex_all_pending))"
    by (simp add: ex_all_pending_fields)
  from approve_all_is_sequence_of_single [of ex_severe_env True ex_all_pending,
      THEN conjunct2, rule_format, OF d]
  show ?thesis by (simp add: ex_all_pending_fields)
qed

section \<open>Suppression of rejected agents\<close>

lemma sweep_agent_rejected [simp]:
  "rejected_approvals (sweep_agent env a st) = rejected_approvals st"
  by (simp add: sweep_agent_def Let_def case_prod_beta split: option.splits)

lemma sweep_agent_suppressed:
  "aid \<in> set (map fst (rejected_approvals st)) \<Longrightarrow> sweep_agent env aid st = st"
  by (simp add: sweep_agent_def Let_def split: option.splits)

lemma sweep_agent_other:
  assumes "a \<noteq> aid"
  shows "map_of (pending_approvals (sweep_agent env a st)) aid = map_of (pending_approvals st) aid"
    and "filter (\<lambda>t. t_agent_id t = aid) (loop_tasks (sweep_agent env a st)) =
         filter (\<lambda>t. t_agent_id t = aid) (loop_tasks st)"
  using assms
  by (simp_all add: sweep_agent_def Let_def case_prod_beta update_conv' split: option.splits)

lemma fold_sweep_suppressed:
  assumes "aid \<in> set (map fst (rejected_approvals st))"
  shows "rejected_approvals (fold (sweep_agent env) ids st) = rejected_approvals st
    \<and> map_of (pending_approvals (fold (sweep_agent env) ids st)) aid =
        map_of (pending_approvals st) aid
    \<and> filter (\<lambda>t. t_agent_id t = aid) (loop_tasks (fold (sweep_agent env) ids st)) =
        filter (\<lambda>t. t_agent_id t = aid) (loop_tasks st)"
  using assms
proof (induction ids arbitrary: st)
  case Nil
  then show ?case by simp
next
  case (Cons a ids)
  have r: "aid \<in> set (map fst (rejected_approvals (sweep_agent env a st)))"
    using Cons.prems by simp
  show ?case
  proof (cases "a = aid")
    case True
    with Cons show ?thesis by (simp add: sweep_agent_suppressed)
  next
    case False
    with Cons.IH [OF r] show ?thesis by (simp add: sweep_agent_other)
  qed
qed

text \<open>
  Claim C9. For an agent id in the rejected-approval map the sweep body changes nothing:
  no pending-approval entry, no increment of the infection counter, no healing
  coroutine. A whole sweep leaves the rejected-approval map, the pending entry of the
  agent and its coroutines as they were, so the agent stays suppressed until
  \<open>start_healing_explicitly\<close> removes it from the map.
\<close>

theorem rejected_agent_is_skipped:
  assumes "aid \<in> set (map fst (rejected_approvals st))"
  shows "sweep_agent env aid st = st
    \<and> rejected_approvals (sentinel_sweep env st) = rejected_approvals st
    \<and> map_of (pending_approvals (sentinel_sweep env st)) aid = map_of (pending_approvals st) aid
    \<and> filter (\<lambda>t. t_agent_id t = aid) (loop_tasks (sentinel_sweep env st)) =
        filter (\<lambda>t. t_agent_id t = aid) (loop_tasks st)"
  using assms fold_sweep_suppressed [OF assms, of env "map fst (agents st)"]
  by (simp add: sentinel_sweep_def sweep_agent_suppressed)

lemma ex_rejected_released_fields:
  "pending_approvals ex_rejected_released = []"
  "map fst (rejected_approvals ex_rejected_released) = [''VPN'']"
  "quarantined ex_rejected_released = {}"
  "loop_tasks ex_rejected_released = []"
  by (simp_all add: ex_rejected_released_def ex_rejected_fields)

text \<open>
  The agent VPN is in the rejected-approval map and not quarantined, and the sentinel
  reports an infection of severity 7.5 for it: the sweep reaches the detection and
  the rejected-approval map suppresses it. The state and the infection counter stay
  as they are, no pending-approval entry appears and no healing coroutine is created,
  also over a whole sweep, which does detect the other two agents.
\<close>

theorem rejected_agent_is_skipped_witness:
  "''VPN'' \<notin> quarantined ex_rejected_released
   \<and> positive_detection ex_severe_env ex_rejected_released ''VPN'' = Some (ex_report (15 / 2))
   \<and> sweep_agent ex_severe_env ''VPN'' ex_rejected_released = ex_rejected_released
   \<and> total_infections (sweep_agent ex_severe_env ''VPN'' ex_rejected_released) =
       total_infections ex_rejected_released
   \<and> map fst (rejected_approvals (sentinel_sweep ex_severe_env ex_rejected_released)) = [''VPN'']
   \<and> map_of (pending_approvals (sentinel_sweep ex_severe_env ex_rejected_released)) ''VPN'' = None
   \<and> filter (\<lambda>t. t_agent_id t = ''VPN'')
         (loop_tasks (sentinel_sweep ex_severe_env ex_rejected_released)) = []
   \<and> map fst (pending_approvals (sentinel_sweep ex_severe_env ex_rejected_released)) =
       [''Docker'', ''Slack'']"
proof -
  have r: "''VPN'' \<in> set (map fst (rejected_approvals ex_rejected_released))"
    by (simp add: ex_rejected_released_fields)
  have d: "positive_detection ex_severe_env ex_rejected_released ''VPN'' =
      Some (ex_report (15 / 2))"
    by (simp add: positive_detection_def is_quarantined_def ex_rejected_released_fields
        ex_severe_env_def ex_env_def)
  have o: "map fst (pending_approvals (sentinel_sweep ex_severe_env ex_rejected_released)) =
      [''Docker'', ''Slack'']"
    by (simp add: ex_rejected_released_def ex_rejected_def approve_and_schedule_def
        approve_healing_def dict_pop_def ex_pending_def ex_simps)
  from rejected_agent_is_skipped [OF r, of ex_severe_env] d o
  show ?thesis by (simp add: ex_rejected_released_fields)
qed

section \<open>Healing episodes\<close>

declare heal_agent.simps [simp del]

lemma map_of_map_at:
  "map_of (map (\<lambda>(k, a). if k = aid then (k, f a) else (k, a)) xs) k =
     (if k = aid then map_option f (map_of xs k) else map_of xs k)"
  by (induction xs) auto

lemma map_of_update_agent:
  "map_of (agents (update_agent aid f st)) k =
     (if k = aid then map_option f (map_of (agents st) k) else map_of (agents st) k)"
  by (simp add: map_of_map_at)

lemma next_action_None:
  "get_next_action env dt fa = None \<longleftrightarrow> set (get_healing_policy env dt) \<subseteq> fa"
  by (auto simp: get_next_action_def find_None_iff)

text \<open>The body of an invocation that finds every action of the policy already failed.\<close>

lemma heal_body_exhausted:
  assumes ag: "map_of (agents st) aid = Some ag"
    and ex: "untried env aid infn st = {}"
  shows "fst (heal_body env aid infn trigger st) = Some Exhausted"
    and "quarantined (snd (heal_body env aid infn trigger st)) = quarantined st - {aid}"
    and "map_of (agents (snd (heal_body env aid infn trigger st))) aid = Some (release_agent ag)"
    and "last (logger_out (snd (heal_body env aid infn trigger st))) =
           (ERROR, ''All healing actions exhausted for %s'', aid)"
    and "memory_records (snd (heal_body env aid infn trigger st)) = memory_records st"
    and "healing_action_log (snd (heal_body env aid infn trigger st)) = healing_action_log st"
    and "total_failed_healings (snd (heal_body env aid infn trigger st)) = total_failed_healings st"
    and "total_healed (snd (heal_body env aid infn trigger st)) = total_healed st"
    and "total_infections (snd (heal_body env aid infn trigger st)) = total_infections st"
    and "loop_tasks (snd (heal_body env aid infn trigger st)) = loop_tasks st"
    and "pending_approvals (snd (heal_body env aid infn trigger st)) = pending_approvals st"
    and "rejected_approvals (snd (heal_body env aid infn trigger st)) = rejected_approvals st"
    and "healing_in_progress (snd (heal_body env aid infn trigger st)) =
           insert aid (healing_in_progress st)"
proof -
  let ?dt = "diagnosis_type (diagnose env infn (get_baseline env aid))"
  have n: "get_next_action env ?dt (get_failed_actions (memory_records st) aid ?dt) = None"
    using ex by (auto simp: next_action_None untried_def Let_def)
  show "fst (heal_body env aid infn trigger st) = Some Exhausted"
    and "quarantined (snd (heal_body env aid infn trigger st)) = quarantined st - {aid}"
    and "map_of (agents (snd (heal_body env aid infn trigger st))) aid = Some (release_agent ag)"
    and "last (logger_out (snd (heal_body env aid infn trigger st))) =
           (ERROR, ''All healing actions exhausted for %s'', aid)"
    and "memory_records (snd (heal_body env aid infn trigger st)) = memory_records st"
    and "healing_action_log (snd (heal_body env aid infn trigger st)) = healing_action_log st"
    and "total_failed_healings (snd (heal_body env aid infn trigger st)) = total_failed_healings st"
    and "total_healed (snd (heal_body env aid infn trigger st)) = total_healed st"
    and "total_infections (snd (heal_body env aid infn trigger st)) = total_infections st"
    and "loop_tasks (snd (heal_body env aid infn trigger st)) = loop_tasks st"
    and "pending_approvals (snd (heal_body env aid infn trigger st)) = pending_approvals st"
    and "rejected_approvals (snd (heal_body env aid infn trigger st)) = rejected_approvals st"
    and "healing_in_progress (snd (heal_body env aid infn trigger st)) =
           insert aid (healing_in_progress st)"
    using ag n
    by (simp_all add: heal_body_def heal_diagnose_def heal_plan_def heal_select_def Let_def
        map_of_map_at)
qed

text \<open>The body of an invocation whose remediation fails.\<close>

lemma heal_body_failed_attempt:
  assumes ag: "map_of (agents st) aid = Some ag"
    and un: "untried env aid infn st \<noteq> {}"
    and fail: "\<forall>g a. \<not> validation_passed (snd (apply_healing env g a))"
  shows "\<exists>a ag'. fst (heal_body env aid infn trigger st) = None
    \<and> a \<in> untried env aid infn st
    \<and> memory_records (snd (heal_body env aid infn trigger st)) =
        memory_records st @
          [\<lparr>hr_agent_id = aid,
            hr_diagnosis_type = diagnosis_type (diagnose env infn (get_baseline env aid)),
            hr_healing_action = a, hr_success = False\<rparr>]
    \<and> total_failed_healings (snd (heal_body env aid infn trigger st)) =
        total_failed_healings st + 1
    \<and> total_healed (snd (heal_body env aid infn trigger st)) = total_healed st
    \<and> quarantined (snd (heal_body env aid infn trigger st)) = quarantined st
    \<and> map_of (agents (snd (heal_body env aid infn trigger st))) aid = Some ag'
    \<and> ag' = fst (apply_healing env ag a)"
proof -
  let ?dt = "diagnosis_type (diagnose env infn (get_baseline env aid))"
  let ?fa = "get_failed_actions (memory_records st) aid ?dt"
  from un obtain a where a: "get_next_action env ?dt ?fa = Some a"
    using next_action_None [of env ?dt ?fa]
    by (cases "get_next_action env ?dt ?fa") (auto simp: untried_def Let_def)
  then have mem: "a \<in> untried env aid infn st"
    by (auto simp: get_next_action_def find_Some_iff untried_def Let_def)
  obtain ag' res where ap: "apply_healing env ag a = (ag', res)"
    by (cases "apply_healing env ag a") auto
  then have nres: "\<not> validation_passed res" using fail by (metis snd_conv)
  have sel: "heal_body env aid infn trigger st =
      heal_apply env aid (diagnose env infn (get_baseline env aid)) a trigger
        (snd (heal_select env aid (diagnose env infn (get_baseline env aid)) ?fa
          (snd (heal_plan env aid (diagnose env infn (get_baseline env aid))
            (snd (heal_diagnose env aid infn st))))))"
    using ag a
    by (simp add: heal_body_def heal_diagnose_def heal_plan_def heal_select_def Let_def)
  have ag2: "map_of (agents (snd (heal_select env aid (diagnose env infn (get_baseline env aid)) ?fa
          (snd (heal_plan env aid (diagnose env infn (get_baseline env aid))
            (snd (heal_diagnose env aid infn st))))))) aid = Some ag"
    using ag a by (simp add: heal_diagnose_def heal_plan_def heal_select_def Let_def)
  show ?thesis
    apply (rule exI [of _ a], rule exI [of _ ag'])
    using ag a mem ap nres ag2
    by (simp add: sel heal_apply_def Let_def map_of_map_at
        heal_diagnose_def heal_plan_def heal_select_def)
qed

lemma untried_after_failure:
  assumes "memory_records st1 = memory_records st @
          [\<lparr>hr_agent_id = aid,
            hr_diagnosis_type = diagnosis_type (diagnose env infn (get_baseline env aid)),
            hr_healing_action = a, hr_success = False\<rparr>]"
  shows "untried env aid infn st1 = untried env aid infn st - {a}"
  using assms by (auto simp: untried_def Let_def get_failed_actions_def)

lemma finite_untried: "finite (untried env aid infn st)"
  by (simp add: untried_def Let_def)

lemma heal_agent_all_fail:
  assumes fail: "\<forall>g a. \<not> validation_passed (snd (apply_healing env g a))"
  shows "map_of (agents st) aid \<noteq> None \<Longrightarrow>
    \<exists>attempted. fst (heal_agent env aid infn trigger st) = Exhausted
      \<and> memory_records (snd (heal_agent env aid infn trigger st)) =
          memory_records st @
            map (\<lambda>a. \<lparr>hr_agent_id = aid,
                      hr_diagnosis_type = diagnosis_type (diagnose env infn (get_baseline env aid)),
                      hr_healing_action = a, hr_success = False\<rparr>) attempted
      \<and> distinct attempted
      \<and> set attempted = untried env aid infn st
      \<and> total_failed_healings (snd (heal_agent env aid infn trigger st)) =
          total_failed_healings st + length attempted
      \<and> total_healed (snd (heal_agent env aid infn trigger st)) = total_healed st
      \<and> quarantined (snd (heal_agent env aid infn trigger st)) = quarantined st - {aid}
      \<and> aid \<notin> healing_in_progress (snd (heal_agent env aid infn trigger st))"
proof (induction "card (untried env aid infn st)" arbitrary: st)
  case 0
  then have ex: "untried env aid infn st = {}"
    using finite_untried [of env aid infn st] by simp
  from 0 obtain ag where ag: "map_of (agents st) aid = Some ag" by auto
  have h: "heal_agent env aid infn trigger st =
      (Exhausted, heal_finally aid (snd (heal_body env aid infn trigger st)))"
    using heal_body_exhausted(1) [OF ag ex, of trigger]
    by (subst heal_agent.simps) (simp add: case_prod_beta)
  show ?case
    by (rule exI [of _ "[]"]) (simp add: h ex heal_body_exhausted [OF ag ex])
next
  case (Suc n)
  then have un: "untried env aid infn st \<noteq> {}" by auto
  from Suc obtain ag where ag: "map_of (agents st) aid = Some ag" by auto
  let ?st1 = "snd (heal_body env aid infn trigger st)"
  from heal_body_failed_attempt [OF ag un fail, of trigger]
  obtain a ag' where
    none: "fst (heal_body env aid infn trigger st) = None" and
    mem: "a \<in> untried env aid infn st" and
    recs: "memory_records ?st1 = memory_records st @
          [\<lparr>hr_agent_id = aid,
            hr_diagnosis_type = diagnosis_type (diagnose env infn (get_baseline env aid)),
            hr_healing_action = a, hr_success = False\<rparr>]" and
    tf: "total_failed_healings ?st1 = total_failed_healings st + 1" and
    th: "total_healed ?st1 = total_healed st" and
    q: "quarantined ?st1 = quarantined st" and
    ag1: "map_of (agents ?st1) aid = Some ag'"
    by blast
  have u1: "untried env aid infn ?st1 = untried env aid infn st - {a}"
    by (rule untried_after_failure [OF recs])
  then have c: "n = card (untried env aid infn ?st1)"
    using Suc.hyps(2) mem finite_untried [of env aid infn st] by simp
  have p1: "map_of (agents ?st1) aid \<noteq> None" using ag1 by simp
  from Suc.hyps(1) [OF c p1] obtain attempted where
    e: "fst (heal_agent env aid infn trigger ?st1) = Exhausted" and
    m: "memory_records (snd (heal_agent env aid infn trigger ?st1)) =
          memory_records ?st1 @
            map (\<lambda>a. \<lparr>hr_agent_id = aid,
                      hr_diagnosis_type = diagnosis_type (diagnose env infn (get_baseline env aid)),
                      hr_healing_action = a, hr_success = False\<rparr>) attempted" and
    d: "distinct attempted" and
    s: "set attempted = untried env aid infn ?st1" and
    f: "total_failed_healings (snd (heal_agent env aid infn trigger ?st1)) =
          total_failed_healings ?st1 + length attempted" and
    hh: "total_healed (snd (heal_agent env aid infn trigger ?st1)) = total_healed ?st1" and
    qq: "quarantined (snd (heal_agent env aid infn trigger ?st1)) = quarantined ?st1 - {aid}"
    by blast
  have h: "heal_agent env aid infn trigger st =
      (fst (heal_agent env aid infn trigger ?st1),
       heal_finally aid (snd (heal_agent env aid infn trigger ?st1)))"
    using none by (subst heal_agent.simps) (simp add: case_prod_beta)
  show ?case
    apply (rule exI [of _ "a # attempted"])
    using e m d s f hh qq recs tf th q u1 mem
    by (auto simp: h)
qed

lemma ex_auto_untried:
  "untried ex_mild_env ''VPN'' (ex_report 4) ex_auto = {''reset_memory'', ''rollback_prompt''}"
  "memory_records ex_auto = []"
  "total_failed_healings ex_auto = 0"
  by (auto simp: ex_auto_def untried_def get_failed_actions_def ex_simps)

lemma heal_agent_exhausted:
  assumes ag: "map_of (agents st) aid = Some ag"
    and ex: "untried env aid infn st = {}"
  shows "fst (heal_agent env aid infn trigger st) = Exhausted
    \<and> last (logger_out (snd (heal_agent env aid infn trigger st))) =
        (ERROR, ''All healing actions exhausted for %s'', aid)
    \<and> quarantined (snd (heal_agent env aid infn trigger st)) = quarantined st - {aid}
    \<and> map_of (agents (snd (heal_agent env aid infn trigger st))) aid =
        Some (ag\<lparr>status := (if infected ag then INFECTED else HEALTHY)\<rparr>)
    \<and> memory_records (snd (heal_agent env aid infn trigger st)) = memory_records st
    \<and> healing_action_log (snd (heal_agent env aid infn trigger st)) = healing_action_log st
    \<and> total_failed_healings (snd (heal_agent env aid infn trigger st)) = total_failed_healings st
    \<and> total_healed (snd (heal_agent env aid infn trigger st)) = total_healed st
    \<and> total_infections (snd (heal_agent env aid infn trigger st)) = total_infections st
    \<and> loop_tasks (snd (heal_agent env aid infn trigger st)) = loop_tasks st
    \<and> aid \<notin> healing_in_progress (snd (heal_agent env aid infn trigger st))"
proof -
  have h: "heal_agent env aid infn trigger st =
      (Exhausted, heal_finally aid (snd (heal_body env aid infn trigger st)))"
    using heal_body_exhausted(1) [OF ag ex, of trigger]
    by (subst heal_agent.simps) (simp add: case_prod_beta)
  have r: "release_agent ag = ag\<lparr>status := (if infected ag then INFECTED else HEALTHY)\<rparr>"
    by (simp add: release_agent_def)
  show ?thesis
    by (simp add: h heal_body_exhausted [OF ag ex] r [symmetric])
qed

lemma sweep_agent_memory [simp]:
  "memory_records (sweep_agent env a st) = memory_records st"
  by (simp add: sweep_agent_def Let_def case_prod_beta split: option.splits)

lemma sweep_agent_failed [simp]:
  "total_failed_healings (sweep_agent env a st) = total_failed_healings st"
  by (simp add: sweep_agent_def Let_def case_prod_beta split: option.splits)

lemma sweep_agent_untried [simp]:
  "untried env' aid infn (sweep_agent env a st) = untried env' aid infn st"
  by (simp add: untried_def)

lemma sweep_agent_infected:
  "map_option infected (map_of (agents (sweep_agent env a st)) k) =
     map_option infected (map_of (agents st) k)"
  by (cases "map_of (agents st) k")
    (auto simp: sweep_agent_def Let_def case_prod_beta map_of_map_at quarantine_agent_def
      split: option.splits)

text \<open>An episode in which every remediation fails leaves nothing of the policy untried.\<close>

lemma untried_after_episode:
  assumes "\<forall>g a. \<not> validation_passed (snd (apply_healing env g a))"
    and "map_of (agents st) aid \<noteq> None"
  shows "untried env aid infn (snd (heal_agent env aid infn trigger st)) = {}"
proof -
  let ?dt = "diagnosis_type (diagnose env infn (get_baseline env aid))"
  from heal_agent_all_fail [OF assms, of infn trigger] obtain attempted where
    m: "memory_records (snd (heal_agent env aid infn trigger st)) =
          memory_records st @
            map (\<lambda>a. \<lparr>hr_agent_id = aid, hr_diagnosis_type = ?dt,
                      hr_healing_action = a, hr_success = False\<rparr>) attempted" and
    s: "set attempted = untried env aid infn st"
    by blast
  have "get_failed_actions (memory_records (snd (heal_agent env aid infn trigger st))) aid ?dt =
      get_failed_actions (memory_records st) aid ?dt \<union> set attempted"
    unfolding m by (auto simp: get_failed_actions_def)
  then show ?thesis
    using s by (auto simp: untried_def Let_def)
qed

text \<open>
  When the remediations also leave the \<open>infected\<close> flag alone, the agent comes out of
  such an episode with its flag unchanged and its status set from the flag.
\<close>

lemma agent_after_episode:
  assumes fail: "\<forall>g a. \<not> validation_passed (snd (apply_healing env g a))"
    and pres: "\<forall>g a. infected (fst (apply_healing env g a)) = infected g"
  shows "map_of (agents st) aid = Some ag \<Longrightarrow>
    \<exists>ag2. map_of (agents (snd (heal_agent env aid infn trigger st))) aid = Some ag2
      \<and> infected ag2 = infected ag
      \<and> status ag2 = (if infected ag then INFECTED else HEALTHY)"
proof (induction "card (untried env aid infn st)" arbitrary: st ag)
  case 0
  then have ex: "untried env aid infn st = {}"
    using finite_untried [of env aid infn st] by simp
  from heal_agent_exhausted [OF "0.prems" ex, of trigger]
  have "map_of (agents (snd (heal_agent env aid infn trigger st))) aid =
      Some (ag\<lparr>status := (if infected ag then INFECTED else HEALTHY)\<rparr>)"
    by blast
  then show ?case by simp
next
  case (Suc n)
  then have un: "untried env aid infn st \<noteq> {}" by auto
  let ?st1 = "snd (heal_body env aid infn trigger st)"
  from heal_body_failed_attempt [OF Suc.prems un fail, of trigger]
  obtain a ag' where
    none: "fst (heal_body env aid infn trigger st) = None" and
    mem: "a \<in> untried env aid infn st" and
    recs: "memory_records ?st1 = memory_records st @
          [\<lparr>hr_agent_id = aid,
            hr_diagnosis_type = diagnosis_type (diagnose env infn (get_baseline env aid)),
            hr_healing_action = a, hr_success = False\<rparr>]" and
    ag1: "map_of (agents ?st1) aid = Some ag'" and
    eq: "ag' = fst (apply_healing env ag a)"
    by blast
  have i: "infected ag' = infected ag" using eq pres by simp
  have u1: "untried env aid infn ?st1 = untried env aid infn st - {a}"
    by (rule untried_after_failure [OF recs])
  then have c: "n = card (untried env aid infn ?st1)"
    using Suc.hyps(2) mem finite_untried [of env aid infn st] by simp
  from Suc.hyps(1) [OF c ag1] obtain ag2 where
    r: "map_of (agents (snd (heal_agent env aid infn trigger ?st1))) aid = Some ag2"
      "infected ag2 = infected ag'"
      "status ag2 = (if infected ag' then INFECTED else HEALTHY)"
    by blast
  have h: "heal_agent env aid infn trigger st =
      (fst (heal_agent env aid infn trigger ?st1),
       heal_finally aid (snd (heal_agent env aid infn trigger ?st1)))"
    using none by (subst heal_agent.simps) (simp add: case_prod_beta)
  show ?case
    using r i by (simp add: h)
qed



lemma ex_env_fail: "\<forall>g a. \<not> validation_passed (snd (apply_healing ex_mild_env g a))"
  by (simp add: ex_simps)

lemma ex_env_pres: "\<forall>g a. infected (fst (apply_healing ex_mild_env g a)) = infected g"
  by (simp add: ex_simps)

lemma ex_detected_fields:
  "map_of (agents (ex_detected ''VPN'')) ''VPN'' =
     Some \<lparr>agent_id = ''VPN'', status = QUARANTINED, infected = True,
           infection_type = Some ''prompt_drift''\<rparr>"
  "map_of (agents (ex_detected ''Docker'')) ''Docker'' =
     Some \<lparr>agent_id = ''Docker'', status = QUARANTINED, infected = False, infection_type = None\<rparr>"
  "memory_records (ex_detected aid) = []"
  "total_failed_healings (ex_detected aid) = 0"
  "rejected_approvals (ex_detected aid) = []"
  "card (untried ex_mild_env aid (ex_report 4) (ex_detected aid)) = 2"
  "quarantined (ex_detected ''VPN'') = {''VPN''}"
  by (simp_all add: ex_detected_def untried_def get_failed_actions_def quarantine_agent_def
      ex_simps)


lemma ex_redetected_untried:
  "untried ex_mild_env ''VPN'' (ex_report 4) (ex_redetected ''VPN'') = {}"
  "untried ex_mild_env ''Docker'' (ex_report 4) (ex_redetected ''Docker'') = {}"
proof -
  have "untried ex_mild_env aid (ex_report 4) (ex_tried aid) =
      untried ex_mild_env aid (ex_report 4)
        (snd (heal_agent ex_mild_env aid (ex_report 4) ''auto'' (ex_detected aid)))" for aid
    by (simp add: ex_tried_def untried_def)
  then show "untried ex_mild_env ''VPN'' (ex_report 4) (ex_redetected ''VPN'') = {}"
    and "untried ex_mild_env ''Docker'' (ex_report 4) (ex_redetected ''Docker'') = {}"
    by (simp_all add: ex_redetected_def untried_after_episode [OF ex_env_fail]
        ex_detected_fields)
qed

lemma ex_redetected_agent:
  "\<exists>ag. map_of (agents (ex_redetected ''VPN'')) ''VPN'' = Some ag \<and> infected ag"
  "\<exists>ag. map_of (agents (ex_redetected ''Docker'')) ''Docker'' = Some ag \<and> \<not> infected ag"
proof -
  have a: "agents (ex_tried aid) =
      agents (snd (heal_agent ex_mild_env aid (ex_report 4) ''auto'' (ex_detected aid)))" for aid
    by (simp add: ex_tried_def)
  from agent_after_episode [OF ex_env_fail ex_env_pres ex_detected_fields(1),
      of "ex_report 4" "''auto''"]
  obtain v where "map_of (agents (ex_tried ''VPN'')) ''VPN'' = Some v" "infected v"
    by (auto simp: a)
  then have "map_option infected (map_of (agents (ex_redetected ''VPN'')) ''VPN'') = Some True"
    by (simp add: ex_redetected_def sweep_agent_infected)
  then show "\<exists>ag. map_of (agents (ex_redetected ''VPN'')) ''VPN'' = Some ag \<and> infected ag"
    by auto
  from agent_after_episode [OF ex_env_fail ex_env_pres ex_detected_fields(2),
      of "ex_report 4" "''auto''"]
  obtain d where "map_of (agents (ex_tried ''Docker'')) ''Docker'' = Some d" "\<not> infected d"
    by (auto simp: a)
  then have "map_option infected (map_of (agents (ex_redetected ''Docker'')) ''Docker'') = Some False"
    by (simp add: ex_redetected_def sweep_agent_infected)
  then show "\<exists>ag. map_of (agents (ex_redetected ''Docker'')) ''Docker'' = Some ag \<and> \<not> infected ag"
    by auto
qed


text \<open>
  Claim C4, as amended. When every remediation that is applied fails, an episode for an
  agent of the pool attempts exactly the actions of the policy that are not yet
  recorded as failed for the agent and the fault category when the episode starts, each
  of them once, and records each as failed; it counts one failed healing per attempt,
  heals nothing, ends exhausted and releases the agent from quarantine. The number of
  attempts is the length of the policy when the policy has no repeated action and
  nothing is recorded as failed for the pair.
\<close>

theorem all_fail_episode:
  assumes "\<forall>g a. \<not> validation_passed (snd (apply_healing env g a))"
    and "aid \<in> set (map fst (agents st))"
  shows "\<exists>attempted.
      fst (heal_agent env aid infn trigger st) = Exhausted
      \<and> memory_records (snd (heal_agent env aid infn trigger st)) =
          memory_records st @
            map (\<lambda>a. \<lparr>hr_agent_id = aid,
                      hr_diagnosis_type = diagnosis_type (diagnose env infn (get_baseline env aid)),
                      hr_healing_action = a, hr_success = False\<rparr>) attempted
      \<and> distinct attempted
      \<and> set attempted = untried env aid infn st
      \<and> length attempted = card (untried env aid infn st)
      \<and> (distinct (get_healing_policy env (diagnosis_type (diagnose env infn (get_baseline env aid))))
         \<and> get_failed_actions (memory_records st) aid
             (diagnosis_type (diagnose env infn (get_baseline env aid))) = {}
         \<longrightarrow> length attempted =
             length (get_healing_policy env (diagnosis_type (diagnose env infn (get_baseline env aid)))))
      \<and> total_failed_healings (snd (heal_agent env aid infn trigger st)) =
          total_failed_healings st + length attempted
      \<and> total_healed (snd (heal_agent env aid infn trigger st)) = total_healed st
      \<and> quarantined (snd (heal_agent env aid infn trigger st)) = quarantined st - {aid}
      \<and> aid \<notin> healing_in_progress (snd (heal_agent env aid infn trigger st))"
proof -
  let ?s = "snd (heal_agent env aid infn trigger st)"
  let ?dt = "diagnosis_type (diagnose env infn (get_baseline env aid))"
  have p: "map_of (agents st) aid \<noteq> None"
    using assms(2) by (simp add: map_of_eq_None_iff)
  from heal_agent_all_fail [OF assms(1) p, of infn trigger] obtain attempted where
    a1: "fst (heal_agent env aid infn trigger st) = Exhausted" and
    a2: "memory_records ?s = memory_records st @
            map (\<lambda>a. \<lparr>hr_agent_id = aid, hr_diagnosis_type = ?dt,
                      hr_healing_action = a, hr_success = False\<rparr>) attempted" and
    a3: "distinct attempted" and
    a4: "set attempted = untried env aid infn st" and
    a5: "total_failed_healings ?s = total_failed_healings st + length attempted" and
    a6: "total_healed ?s = total_healed st" and
    a7: "quarantined ?s = quarantined st - {aid}" and
    a8: "aid \<notin> healing_in_progress ?s"
    by blast
  have l: "length attempted = card (untried env aid infn st)"
    using a3 a4 distinct_card [of attempted] by simp
  have n: "distinct (get_healing_policy env ?dt)
         \<and> get_failed_actions (memory_records st) aid ?dt = {}
         \<longrightarrow> length attempted = length (get_healing_policy env ?dt)"
    unfolding l by (simp add: untried_def Let_def distinct_card)
  show ?thesis
    using a1 a2 a3 a4 l n a5 a6 a7 a8 by (intro exI [of _ attempted] conjI)
qed

theorem all_fail_episode_witness:
  "fst (heal_agent ex_mild_env ''VPN'' (ex_report 4) ''auto'' ex_auto) = Exhausted
   \<and> length (memory_records (snd (heal_agent ex_mild_env ''VPN'' (ex_report 4) ''auto'' ex_auto))) = 2
   \<and> total_failed_healings (snd (heal_agent ex_mild_env ''VPN'' (ex_report 4) ''auto'' ex_auto)) = 2
   \<and> ''VPN'' \<notin> quarantined (snd (heal_agent ex_mild_env ''VPN'' (ex_report 4) ''auto'' ex_auto))"
proof -
  let ?s = "snd (heal_agent ex_mild_env ''VPN'' (ex_report 4) ''auto'' ex_auto)"
  have f: "\<forall>g a. \<not> validation_passed (snd (apply_healing ex_mild_env g a))"
    by (simp add: ex_simps)
  have p: "''VPN'' \<in> set (map fst (agents ex_auto))"
    by (simp add: ex_auto_fields)
  have c: "card (untried ex_mild_env ''VPN'' (ex_report 4) ex_auto) = 2"
    by (simp add: ex_auto_untried)
  from all_fail_episode [OF f p, of "ex_report 4" "''auto''"] obtain attempted where
    a1: "fst (heal_agent ex_mild_env ''VPN'' (ex_report 4) ''auto'' ex_auto) = Exhausted" and
    a2: "memory_records ?s = memory_records ex_auto @
            map (\<lambda>a. \<lparr>hr_agent_id = ''VPN'',
                      hr_diagnosis_type = diagnosis_type
                        (diagnose ex_mild_env (ex_report 4) (get_baseline ex_mild_env ''VPN'')),
                      hr_healing_action = a, hr_success = False\<rparr>) attempted" and
    a3: "length attempted = card (untried ex_mild_env ''VPN'' (ex_report 4) ex_auto)" and
    a5: "total_failed_healings ?s = total_failed_healings ex_auto + length attempted" and
    a7: "quarantined ?s = quarantined ex_auto - {''VPN''}"
    by blast
  have "length (memory_records ?s) = 2" using a2 a3 c by (simp add: ex_auto_untried)
  moreover have "total_failed_healings ?s = 2" using a5 a3 c by (simp add: ex_auto_untried)
  moreover have "''VPN'' \<notin> quarantined ?s" using a7 by simp
  ultimately show ?thesis using a1 by simp
qed

text \<open>
  Claim C4 as stated fails on the second episode of an agent. The agent VPN has been
  detected, its first episode has tried and failed both actions of the policy, and the
  sweep has detected the agent again. The policy has two actions and every remediation
  fails, but the second episode ends exhausted without a single attempt.
\<close>

theorem second_episode_attempts_nothing:
  "length (get_healing_policy ex_mild_env
      (diagnosis_type (diagnose ex_mild_env (ex_report 4) (get_baseline ex_mild_env ''VPN'')))) = 2
   \<and> (\<forall>g a. \<not> validation_passed (snd (apply_healing ex_mild_env g a)))
   \<and> fst (heal_agent ex_mild_env ''VPN'' (ex_report 4) ''auto'' (ex_redetected ''VPN'')) = Exhausted
   \<and> memory_records
       (snd (heal_agent ex_mild_env ''VPN'' (ex_report 4) ''auto'' (ex_redetected ''VPN''))) =
      memory_records (ex_redetected ''VPN'')
   \<and> total_failed_healings
       (snd (heal_agent ex_mild_env ''VPN'' (ex_report 4) ''auto'' (ex_redetected ''VPN''))) =
      total_failed_healings (ex_redetected ''VPN'')"
proof -
  from ex_redetected_agent(1) obtain v where
    v: "map_of (agents (ex_redetected ''VPN'')) ''VPN'' = Some v"
    by blast
  from heal_agent_exhausted [OF v ex_redetected_untried(1), of "''auto''"] ex_env_fail
  show ?thesis by (simp add: ex_simps)
qed




end
